theory Spec2Isabelle
  imports Complex_Main "HOL-Library.Word"
begin

section \<open>JavaScript values used by the quote pipeline\<close>

text \<open>
  A JavaScript string is a sequence of UTF-16 code units and \<open>.length\<close> counts code
  units, so quotation text is a list of 16-bit words. Titles, section numbers, section indexes
  and tag names are only compared and passed on; they are ordinary strings.
\<close>

type_synonym jsstring = "16 word list"

definition utf16 :: "string \<Rightarrow> jsstring" where
  "utf16 cs = map (\<lambda>c. of_nat (of_char c)) cs"

text \<open>
  The values a quote variable can hold: a string, or \<open>null\<close>/\<open>undefined\<close> (the result of
  reading an array out of range). \<open>!quote\<close> is true exactly for the falsy ones.
\<close>

datatype jsval = JNull | JUndefined | JStr jsstring

fun truthy :: "jsval \<Rightarrow> bool" where
  "truthy JNull = False"
| "truthy JUndefined = False"
| "truthy (JStr s) = (s \<noteq> [])"

section \<open>Numbers\<close>

text \<open>
  A JavaScript number is an IEEE double. The doubles the program meets are rationals, and
  each arithmetic operation returns the exact result rounded to the nearest double, a tie
  going to the double whose last bit is zero. For a positive \<open>x\<close>, \<open>expo x\<close> is the \<open>e\<close> with
  \<open>2^e \<le> x < 2^(e+1)\<close>, and \<open>quantum x\<close> is the distance between neighbouring doubles
  around \<open>x\<close>: 53 significant bits, and \<open>2^-1074\<close> below \<open>2^-1022\<close>. Overflow to
  \<open>Infinity\<close> is left out: every operand here is a count, a length, or below 1.
\<close>

function expo :: "rat \<Rightarrow> int" where
  "expo x = (if x \<le> 0 then 0 else if 2 \<le> x then expo (x / 2) + 1
             else if x < 1 then expo (2 * x) - 1 else 0)"
  by pat_completeness auto
termination
proof (relation "measure (\<lambda>x. if 1 \<le> x then nat \<lfloor>x\<rfloor> else nat \<lfloor>1 / x\<rfloor> + 1)")
  show "wf (measure (\<lambda>x::rat. if 1 \<le> x then nat \<lfloor>x\<rfloor> else nat \<lfloor>1 / x\<rfloor> + 1))"
    by simp
next
  fix x :: rat
  assume "\<not> x \<le> 0" "2 \<le> x"
  then have "\<lfloor>x / 2\<rfloor> < \<lfloor>x\<rfloor> \<and> 0 < \<lfloor>x\<rfloor>" by linarith
  then show "(x / 2, x) \<in> measure (\<lambda>x. if 1 \<le> x then nat \<lfloor>x\<rfloor> else nat \<lfloor>1 / x\<rfloor> + 1)"
    using \<open>2 \<le> x\<close> by simp
next
  fix x :: rat
  assume a: "\<not> x \<le> 0" "\<not> 2 \<le> x" "x < 1"
  define y where "y = 1 / x"
  have y: "1 < y" "1 / (2 * x) = y / 2" using a by (simp_all add: y_def)
  show "(2 * x, x) \<in> measure (\<lambda>x. if 1 \<le> x then nat \<lfloor>x\<rfloor> else nat \<lfloor>1 / x\<rfloor> + 1)"
  proof (cases "1 \<le> 2 * x")
    case True
    then have "\<lfloor>2 * x\<rfloor> = 1" using a by linarith
    moreover have "1 \<le> \<lfloor>y\<rfloor>" using y(1) by linarith
    ultimately show ?thesis using True a by (simp add: y_def)
  next
    case False
    then have "2 \<le> y" using a by (simp add: y_def field_simps)
    then have "\<lfloor>y / 2\<rfloor> < \<lfloor>y\<rfloor> \<and> 0 < \<lfloor>y\<rfloor>" by linarith
    then have "\<lfloor>1 / (2 * x)\<rfloor> < \<lfloor>1 / x\<rfloor> \<and> 0 < \<lfloor>1 / x\<rfloor>"
      using y(2) by (simp only: y_def)
    then show ?thesis using False a by simp
  qed
qed

declare expo.simps [simp del]

definition quantum :: "rat \<Rightarrow> rat" where
  "quantum x = 2 powi (max (expo x) (- 1022) - 52)"

text \<open>The nearest integer, a tie going to the even one.\<close>

definition roundEven :: "rat \<Rightarrow> int" where
  "roundEven t =
     (let n = \<lfloor>t\<rfloor>; f = t - of_int n
      in if f < 1 / 2 then n else if 1 / 2 < f then n + 1 else if even n then n else n + 1)"

definition roundDouble :: "rat \<Rightarrow> rat" where
  "roundDouble x = sgn x * (quantum \<bar>x\<bar> * of_int (roundEven (\<bar>x\<bar> / quantum \<bar>x\<bar>)))"

text \<open>The nearest double towards zero.\<close>

definition truncDouble :: "rat \<Rightarrow> rat" where
  "truncDouble x = sgn x * (quantum \<bar>x\<bar> * of_int \<lfloor>\<bar>x\<bar> / quantum \<bar>x\<bar>\<rfloor>)"

text \<open>
  The doubles, but for the upper end of their range: at most 53 significant bits, and a
  multiple of \<open>2^-1074\<close>.
\<close>

definition isDouble :: "rat \<Rightarrow> bool" where
  "isDouble x = (\<exists>m e. m < 2 ^ 53 \<and> - 1074 \<le> e \<and> \<bar>x\<bar> = of_nat m * 2 powi e)"

text \<open>
  The result of a JavaScript division of two non-negative integers below \<open>2^53\<close>: \<open>0 / 0\<close>
  is \<open>NaN\<close>, \<open>a / 0\<close> is \<open>Infinity\<close> for positive \<open>a\<close>, and otherwise the quotient rounded to a
  double. Every comparison with \<open>NaN\<close> is false.
\<close>

datatype jsnum = NaN | PosInf | Fin rat

definition js_div :: "nat \<Rightarrow> nat \<Rightarrow> jsnum" where
  "js_div a b =
     (if b = 0 then (if a = 0 then NaN else PosInf)
      else Fin (roundDouble (of_nat a / of_nat b)))"

fun js_gt :: "jsnum \<Rightarrow> rat \<Rightarrow> bool" where
  "js_gt NaN L = False"
| "js_gt PosInf L = True"
| "js_gt (Fin q) L = (q > L)"

fun js_le :: "jsnum \<Rightarrow> rat \<Rightarrow> bool" where
  "js_le NaN L = False"
| "js_le PosInf L = False"
| "js_le (Fin q) L = (q \<le> L)"

section \<open>Configuration\<close>

text \<open>
  \<open>minLength\<close>, \<open>maxLength\<close> and \<open>numericLimit\<close> are module-level variables, changed only by
  the three setters. The model passes them as a record; a setter returns the updated record.
  The literal \<open>0.1\<close> denotes the double nearest to one tenth.
\<close>

record config =
  minLength :: int
  maxLength :: int
  numericLimit :: rat

definition defaultConfig :: config where
  "defaultConfig = \<lparr>minLength = 20, maxLength = 300, numericLimit = roundDouble (1 / 10)\<rparr>"

definition setMinLength :: "int \<Rightarrow> config \<Rightarrow> config" where
  "setMinLength m cfg = cfg\<lparr>minLength := m\<rparr>"

definition setMaxLength :: "int \<Rightarrow> config \<Rightarrow> config" where
  "setMaxLength m cfg = cfg\<lparr>maxLength := m\<rparr>"

definition setNumericLimit :: "rat \<Rightarrow> config \<Rightarrow> config" where
  "setNumericLimit p cfg = cfg\<lparr>numericLimit := p\<rparr>"

section \<open>The validator\<close>

text \<open>\<open>/\d/\<close> matches the ASCII digits only.\<close>

definition isDigit :: "16 word \<Rightarrow> bool" where
  "isDigit c = (0x30 \<le> c \<and> c \<le> 0x39)"

definition countDigits :: "jsstring \<Rightarrow> nat" where
  "countDigits s = length (filter isDigit s)"

text \<open>The digit ratio as \<open>isQuoteValid\<close> computes it.\<close>

definition digitRatio :: "jsstring \<Rightarrow> jsnum" where
  "digitRatio s = js_div (countDigits s) (length s)"

text \<open>
  The digit ratio in the words of the glossary: the fraction of the characters that are
  decimal digits, as an exact number.
\<close>

definition digitFraction :: "jsstring \<Rightarrow> rat" where
  "digitFraction s = of_nat (countDigits s) / of_nat (length s)"

text \<open>
  \<open>isQuoteValid\<close> of random-wikiquote.js. Besides the verdict, the model records the operands
  of every division the function evaluates, in order, so that statements about what is
  evaluated can be made.
\<close>

fun isQuoteValid_run :: "config \<Rightarrow> jsval \<Rightarrow> bool \<times> (nat \<times> nat) list" where
  "isQuoteValid_run cfg JNull = (False, [])"
| "isQuoteValid_run cfg JUndefined = (False, [])"
| "isQuoteValid_run cfg (JStr quote) =
     (if quote = [] then (False, [])
      else
        let len = length quote;
            digits = countDigits quote;
            digitPercentage = js_div digits len
        in (if int len < minLength cfg \<or> int len > maxLength cfg
               \<or> js_gt digitPercentage (numericLimit cfg)
            then False else True,
            [(digits, len)]))"

definition isQuoteValid :: "config \<Rightarrow> jsval \<Rightarrow> bool" where
  "isQuoteValid cfg quote = fst (isQuoteValid_run cfg quote)"

section \<open>The markup tree and text extraction\<close>

text \<open>
  The tree \<open>DOMParser.parseFromString\<close> returns: text nodes, comments, and elements with their
  upper-case \<open>tagName\<close> and child nodes. The parser itself is the browser's.
\<close>

datatype node = Text jsstring | Comment jsstring | Element string "node list"

fun isElement :: "node \<Rightarrow> bool" where
  "isElement (Element t cs) = True"
| "isElement n = False"

fun tagName :: "node \<Rightarrow> string" where
  "tagName (Element t cs) = t"
| "tagName n = []"

text \<open>
  \<open>querySelectorAll('div > ul > li')\<close>: the \<open>li\<close> elements whose parent is a \<open>ul\<close> whose parent
  is a \<open>div\<close>, in document order. \<open>select gp p n\<close> walks the subtree of \<open>n\<close>, whose parent has
  tag \<open>p\<close> and grandparent tag \<open>gp\<close> (the empty tag where there is no such element).
\<close>

fun select :: "string \<Rightarrow> string \<Rightarrow> node \<Rightarrow> node list" where
  "select gp p (Element t cs) =
     (if t = ''LI'' \<and> p = ''UL'' \<and> gp = ''DIV'' then [Element t cs] else [])
     @ concat (map (select p t) cs)"
| "select gp p (Text s) = []"
| "select gp p (Comment s) = []"

definition querySelectorAll :: "node \<Rightarrow> node list" where
  "querySelectorAll html = select [] [] html"

text \<open>
  The parsed document is not rendered, so \<open>innerText\<close> (and \<open>outerText\<close>) is the element's
  \<open>textContent\<close>: the data of its descendant text nodes, in tree order.
\<close>

fun innerText :: "node \<Rightarrow> jsstring" where
  "innerText (Text s) = s"
| "innerText (Comment s) = []"
| "innerText (Element t cs) = concat (map innerText cs)"

definition ELEMENTS_TO_KEEP :: "string list" where
  "ELEMENTS_TO_KEEP =
     [''A'', ''B'', ''I'', ''STRONG'', ''EM'', ''MARK'', ''ABBR'', ''SMALL'',
      ''DEL'', ''INS'', ''SUB'', ''SUP'', ''PRE'', ''CODE'', ''DFN'', ''SAMP'']"

text \<open>
  The inner loop over \<open>Array.from(quote.children)\<close>: the element children are visited by their
  position among the child nodes, and one whose tag is not kept is replaced, in place, by a new
  text node holding one space.
\<close>

definition elementPositions :: "node list \<Rightarrow> nat list" where
  "elementPositions ns = filter (\<lambda>i. isElement (ns ! i)) [0..<length ns]"

definition replaceChild :: "string list \<Rightarrow> node list \<Rightarrow> nat \<Rightarrow> node list" where
  "replaceChild keep ns i =
     (if tagName (ns ! i) \<notin> set keep then ns[i := Text (utf16 '' '')] else ns)"

fun replaceUnwanted :: "string list \<Rightarrow> node \<Rightarrow> node" where
  "replaceUnwanted keep (Element t cs) =
     Element t (foldl (replaceChild keep) cs (elementPositions cs))"
| "replaceUnwanted keep n = n"

text \<open>The characters \<open>\s\<close> matches, which are also the ones \<open>trim\<close> strips.\<close>

definition isSpace :: "16 word \<Rightarrow> bool" where
  "isSpace c =
     (c = 0x09 \<or> c = 0x0A \<or> c = 0x0B \<or> c = 0x0C \<or> c = 0x0D \<or> c = 0x20 \<or> c = 0xA0
      \<or> c = 0x1680 \<or> (0x2000 \<le> c \<and> c \<le> 0x200A) \<or> c = 0x2028 \<or> c = 0x2029
      \<or> c = 0x202F \<or> c = 0x205F \<or> c = 0x3000 \<or> c = 0xFEFF)"

text \<open>
  \<open>replace(/\s\s+/gmi, ' ')\<close>: scanning from the left, a white-space character followed by
  another starts a match, which takes the whole run and is replaced by one space; any other
  character is copied.
\<close>

function collapseSpaces :: "jsstring \<Rightarrow> jsstring" where
  "collapseSpaces [] = []"
| "collapseSpaces [c] = [c]"
| "collapseSpaces (c # d # cs) =
     (if isSpace c \<and> isSpace d then 0x20 # collapseSpaces (dropWhile isSpace cs)
      else c # collapseSpaces (d # cs))"
  by pat_completeness auto
termination
  by (relation "measure length") (auto simp: length_dropWhile_le less_Suc_eq_le le_SucI)

definition trim :: "jsstring \<Rightarrow> jsstring" where
  "trim s = rev (dropWhile isSpace (rev (dropWhile isSpace s)))"

text \<open>Whether a string has two white-space characters next to each other.\<close>

fun adjacentSpaces :: "jsstring \<Rightarrow> bool" where
  "adjacentSpaces (c # d # cs) = (isSpace c \<and> isSpace d \<or> adjacentSpaces (d # cs))"
| "adjacentSpaces cs = False"

text \<open>The body of the loop over the selected items, up to the validity test.\<close>

definition plainQuote :: "node \<Rightarrow> jsstring" where
  "plainQuote quote = trim (collapseSpaces (innerText (replaceUnwanted ELEMENTS_TO_KEEP quote)))"

section \<open>Promises and the remote source\<close>

text \<open>
  What a rejected promise carries: a message of the program, the string
  \<open>"Invalid Response: " + status\<close>, the exception of \<open>JSON.parse\<close>, or the \<open>TypeError\<close> of
  reading a property of \<open>undefined\<close>.
\<close>

datatype reason = Message string | InvalidResponse nat | SyntaxError | TypeError

text \<open>A promise, by how it ends: fulfilled, rejected, or never settled.\<close>

datatype 'a promise = Fulfilled 'a | Rejected reason | Pending

fun thenP :: "'a promise \<Rightarrow> ('a \<Rightarrow> 'b promise) \<Rightarrow> 'b promise" where
  "thenP (Fulfilled x) f = f x"
| "thenP (Rejected r) f = Rejected r"
| "thenP Pending f = Pending"

text \<open>
  The final state of one \<open>XMLHttpRequest\<close>: its status, and its body as \<open>JSON.parse\<close> reads it
  (\<open>None\<close> where \<open>JSON.parse\<close> throws). \<open>ajaxGet\<close> ignores a state with status 0, so such a
  request leaves the promise unsettled.
\<close>

record 'd xhr =
  status :: nat
  responseJSON :: "'d option"

definition ajaxGet :: "'d xhr \<Rightarrow> 'd promise" where
  "ajaxGet x =
     (if status x = 0 then Pending
      else if status x \<noteq> 200 then Rejected (InvalidResponse (status x))
      else (case responseJSON x of None \<Rightarrow> Rejected SyntaxError | Some d \<Rightarrow> Fulfilled d))"

text \<open>
  The bodies of the three requests. A section of the outline has an \<open>index\<close> and a dotted
  \<open>number\<close>; \<open>parse\<close> may be absent from a body; an entry of \<open>query.random\<close> may lack its \<open>id\<close>.
\<close>

record sec =
  index :: string
  number :: string

record sections_parse =
  sectionsTitle :: string
  sectionList :: "sec list"

record text_parse =
  textTitle :: string
  textMarkup :: node

text \<open>
  What one attempt observes: the configuration in effect during it, the answer to each request
  it can make, and the two numbers drawn by \<open>Math.random()\<close>, first for the section and then
  for the quote. A section index is \<open>None\<close> where the program passes \<open>undefined\<close>.
\<close>

record world =
  config :: config
  randomXhr :: "int option list xhr"
  sectionsXhr :: "int \<Rightarrow> sections_parse option xhr"
  textXhr :: "int \<Rightarrow> string option \<Rightarrow> text_parse option xhr"
  randomForSection :: rat
  randomForQuote :: rat

section \<open>The stages of random-wikiquote.js\<close>

record batch =
  batchTitles :: string
  quotes :: "jsstring list"

record outline =
  pageId :: int
  titles :: string
  sections :: "string list"

text \<open>The loop of \<open>getQuotesForSection\<close> over the selected items, pushing the valid texts.\<close>

definition pushIfValid :: "config \<Rightarrow> jsstring list \<Rightarrow> node \<Rightarrow> jsstring list" where
  "pushIfValid cfg parsedQuotes quote =
     (let plain = plainQuote quote
      in if isQuoteValid cfg (JStr plain) then parsedQuotes @ [plain] else parsedQuotes)"

definition getQuotesForSection :: "world \<Rightarrow> int \<Rightarrow> string option \<Rightarrow> batch promise" where
  "getQuotesForSection w pid sectionIndex =
     (case ajaxGet (textXhr w pid sectionIndex) of
        Rejected error \<Rightarrow> Rejected error
      | Pending \<Rightarrow> Pending
      | Fulfilled data \<Rightarrow>
          (case data of
             None \<Rightarrow> Rejected (Message ''Section is not valid.'')
           | Some p \<Rightarrow>
               let allQuotes = querySelectorAll (textMarkup p);
                   parsedQuotes = foldl (pushIfValid (config w)) [] allQuotes
               in if length parsedQuotes = 0
                  then Rejected (Message ''Section has no valid quote.'')
                  else Fulfilled \<lparr>batchTitles = textTitle p, quotes = parsedQuotes\<rparr>))"

text \<open>
  \<open>String.prototype.split\<close> with a one-character separator: the pieces between the separators,
  so never an empty array. (The last case of the inner \<open>case\<close> is never reached.)
\<close>

fun split :: "char \<Rightarrow> string \<Rightarrow> string list" where
  "split sep [] = [[]]"
| "split sep (c # cs) =
     (if c = sep then [] # split sep cs
      else (case split sep cs of w # ws \<Rightarrow> (c # w) # ws | [] \<Rightarrow> [[c]]))"

definition pushIfQuoteSection :: "string list \<Rightarrow> sec \<Rightarrow> string list" where
  "pushIfQuoteSection sectionArray s =
     (let splitNum = split CHR ''.'' (number s)
      in if length splitNum > 1 \<and> splitNum ! 0 = ''1''
         then sectionArray @ [index s] else sectionArray)"

definition getSectionsForPage :: "world \<Rightarrow> int \<Rightarrow> outline promise" where
  "getSectionsForPage w pid =
     (case ajaxGet (sectionsXhr w pid) of
        Rejected error \<Rightarrow> Rejected error
      | Pending \<Rightarrow> Pending
      | Fulfilled data \<Rightarrow>
          (case data of
             None \<Rightarrow> Rejected TypeError
           | Some p \<Rightarrow>
               let sectionArray = foldl pushIfQuoteSection [] (sectionList p);
                   sectionArray = (if length sectionArray = 0 then sectionArray @ [''1'']
                                   else sectionArray)
               in Fulfilled \<lparr>pageId = pid, titles = sectionsTitle p, sections = sectionArray\<rparr>))"

definition getRandomPage :: "world \<Rightarrow> int promise" where
  "getRandomPage w =
     (case ajaxGet (randomXhr w) of
        Rejected error \<Rightarrow> Rejected error
      | Pending \<Rightarrow> Pending
      | Fulfilled random \<Rightarrow>
          (case random of
             [] \<Rightarrow> Rejected TypeError
           | None # rest \<Rightarrow> Rejected (Message ''Invalid random page id.'')
           | Some i # rest \<Rightarrow>
               if i = 0 then Rejected (Message ''Invalid random page id.'') else Fulfilled i))"

section \<open>The retry loop\<close>

text \<open>
  \<open>Math.random()\<close> returns a double. The world gives the number drawn, and \<open>Math.random()\<close>
  returns it as a double: the number itself when it is a double, and the nearest double
  towards zero otherwise. \<open>randomNum\<close> is \<open>Math.floor(Math.random() * max)\<close>, where the
  product is rounded to a double before the floor is taken; \<open>max\<close> is the length of an array,
  an integer below \<open>2^32\<close>. An array read out of range is \<open>undefined\<close>.
\<close>

definition Math_random :: "rat \<Rightarrow> rat" where
  "Math_random r = truncDouble r"

definition randomNum :: "rat \<Rightarrow> nat \<Rightarrow> int" where
  "randomNum r m = \<lfloor>roundDouble (Math_random r * of_nat m)\<rfloor>"

definition js_nth :: "'a list \<Rightarrow> int \<Rightarrow> 'a option" where
  "js_nth xs i = (if 0 \<le> i \<and> i < int (length xs) then Some (xs ! nat i) else None)"

definition randomSection :: "rat \<Rightarrow> string list \<Rightarrow> string option" where
  "randomSection r secs = js_nth secs (randomNum r (length secs))"

definition randomQuote :: "rat \<Rightarrow> batch \<Rightarrow> jsval" where
  "randomQuote r b =
     (case js_nth (quotes b) (randomNum r (length (quotes b))) of
        None \<Rightarrow> JUndefined
      | Some s \<Rightarrow> JStr s)"

record quote_result =
  title :: string
  quote :: jsval

definition chooseQuote :: "rat \<Rightarrow> batch \<Rightarrow> quote_result" where
  "chooseQuote r b = \<lparr>title = batchTitles b, quote = randomQuote r b\<rparr>"

definition RETRY_LIMIT :: nat where
  "RETRY_LIMIT = 7"

text \<open>
  The promise chain of \<open>mainSequence\<close>, run in the world of one attempt, up to the point where
  it resolves the outer promise or hands the reason to \<open>checkRetry\<close>.
\<close>

definition chain :: "world \<Rightarrow> quote_result promise" where
  "chain w =
     thenP (thenP (thenP (getRandomPage w)
       (\<lambda>pid. getSectionsForPage w pid))
       (\<lambda>data. getQuotesForSection w (pageId data)
                 (randomSection (randomForSection w) (sections data))))
       (\<lambda>qs. Fulfilled (chooseQuote (randomForQuote w) qs))"

text \<open>
  \<open>mainSequence\<close> and \<open>checkRetry\<close> call each other. The state is the counter \<open>numRetry\<close> and
  the console, which holds the reason of each line \<open>reason + " Retrying..."\<close>. The attempt
  made when the counter is \<open>k\<close> runs in the world \<open>env k\<close>. The retry limit and the chain are
  arguments, since the other versions of the file differ from this one in them only.
\<close>

record run_state =
  numRetry :: nat
  console :: "reason list"

function mainSequence ::
    "nat \<Rightarrow> (world \<Rightarrow> quote_result promise) \<Rightarrow> (nat \<Rightarrow> world) \<Rightarrow> run_state
      \<Rightarrow> quote_result promise \<times> run_state"
  and checkRetry ::
    "nat \<Rightarrow> (world \<Rightarrow> quote_result promise) \<Rightarrow> (nat \<Rightarrow> world) \<Rightarrow> reason \<Rightarrow> run_state
      \<Rightarrow> quote_result promise \<times> run_state" where
  "mainSequence limit ch env st =
     (case ch (env (numRetry st)) of
        Fulfilled theQuote \<Rightarrow> (Fulfilled theQuote, st)
      | Pending \<Rightarrow> (Pending, st)
      | Rejected r \<Rightarrow> checkRetry limit ch env r st)"
| "checkRetry limit ch env r st =
     (let st' = st\<lparr>console := console st @ [r], numRetry := numRetry st + 1\<rparr>
      in if numRetry st' \<ge> limit
         then (Rejected (Message ''Retry limit reached''), st')
         else mainSequence limit ch env st')"
  by pat_completeness auto
termination
  by (relation "measure (\<lambda>x. case x of
         Inl (limit, ch, env, st) \<Rightarrow> 2 * (limit - numRetry st) + 1
       | Inr (limit, ch, env, r, st) \<Rightarrow> 2 * (limit - numRetry st))") auto

declare mainSequence.simps [simp del] checkRetry.simps [simp del]

definition getRandomQuote :: "(nat \<Rightarrow> world) \<Rightarrow> quote_result promise \<times> run_state" where
  "getRandomQuote env = mainSequence RETRY_LIMIT chain env \<lparr>numRetry = 0, console = []\<rparr>"

section \<open>The earlier version of the file (unnamed part 001)\<close>

text \<open>
  The earlier version keeps the tags of \<open>ELEMENTS_TO_KEEP\<close> in a local \<open>childrenToKeep\<close>,
  pushes the \<open>outerText\<close> of every selected item without testing it, and validates the one
  chosen quote afterwards, in \<open>checkQuote\<close>. Its \<open>getSectionsForPage\<close> ends as the one above
  does on every body and is not repeated; its \<open>RETRY_LIMIT\<close> is 7 as well.
\<close>

definition childrenToKeep :: "string list" where
  "childrenToKeep =
     [''A'', ''B'', ''I'', ''STRONG'', ''EM'', ''MARK'', ''ABBR'', ''SMALL'',
      ''DEL'', ''INS'', ''SUB'', ''SUP'', ''PRE'', ''CODE'', ''DFN'', ''SAMP'']"

definition outerText :: "node \<Rightarrow> jsstring" where
  "outerText n = innerText n"

definition pushOuterText :: "jsstring list \<Rightarrow> node \<Rightarrow> jsstring list" where
  "pushOuterText parsedQuotes li =
     parsedQuotes @ [outerText (replaceUnwanted childrenToKeep li)]"

definition getQuotesForSection_part001 :: "world \<Rightarrow> int \<Rightarrow> string option \<Rightarrow> batch promise" where
  "getQuotesForSection_part001 w pid sectionIndex =
     (case ajaxGet (textXhr w pid sectionIndex) of
        Rejected error \<Rightarrow> Rejected error
      | Pending \<Rightarrow> Pending
      | Fulfilled data \<Rightarrow>
          (case data of
             None \<Rightarrow> Rejected (Message ''Page has no valid section'')
           | Some p \<Rightarrow>
               let allQuotes = querySelectorAll (textMarkup p);
                   parsedQuotes = foldl pushOuterText [] allQuotes
               in Fulfilled \<lparr>batchTitles = textTitle p, quotes = parsedQuotes\<rparr>))"

definition getRandomPage_part001 :: "world \<Rightarrow> int promise" where
  "getRandomPage_part001 w =
     (case ajaxGet (randomXhr w) of
        Rejected error \<Rightarrow> Rejected error
      | Pending \<Rightarrow> Pending
      | Fulfilled random \<Rightarrow>
          (case random of
             [] \<Rightarrow> Rejected TypeError
           | None # rest \<Rightarrow> Rejected (Message ''Invalid random page id'')
           | Some i # rest \<Rightarrow>
               if i = 0 then Rejected (Message ''Invalid random page id'') else Fulfilled i))"

text \<open>\<open>checkQuote\<close>, with the operands of the divisions it evaluates, as for \<open>isQuoteValid\<close>.\<close>

definition checkQuote_run ::
    "config \<Rightarrow> quote_result \<Rightarrow> quote_result promise \<times> (nat \<times> nat) list" where
  "checkQuote_run cfg q =
     (case quote q of
        JNull \<Rightarrow> (Rejected (Message ''No quote found''), [])
      | JUndefined \<Rightarrow> (Rejected (Message ''No quote found''), [])
      | JStr s \<Rightarrow>
          if s = [] then (Rejected (Message ''No quote found''), [])
          else
            let len = length s;
                digits = countDigits s;
                digitPercentage = js_div digits len
            in (if int len < minLength cfg then Rejected (Message ''Quote is too short'')
                else if int len > maxLength cfg then Rejected (Message ''Quote is too long'')
                else if js_gt digitPercentage (numericLimit cfg)
                  then Rejected (Message ''Quote is too numeric'')
                else Fulfilled q,
                [(digits, len)]))"

definition checkQuote :: "config \<Rightarrow> quote_result \<Rightarrow> quote_result promise" where
  "checkQuote cfg q = fst (checkQuote_run cfg q)"

definition chain_part001 :: "world \<Rightarrow> quote_result promise" where
  "chain_part001 w =
     thenP (thenP (thenP (thenP (getRandomPage_part001 w)
       (\<lambda>pid. getSectionsForPage w pid))
       (\<lambda>data. getQuotesForSection_part001 w (pageId data)
                 (randomSection (randomForSection w) (sections data))))
       (\<lambda>qs. Fulfilled (chooseQuote (randomForQuote w) qs)))
       (\<lambda>q. checkQuote (config w) q)"

definition getRandomQuote_part001 ::
    "(nat \<Rightarrow> world) \<Rightarrow> quote_result promise \<times> run_state" where
  "getRandomQuote_part001 env =
     mainSequence RETRY_LIMIT chain_part001 env \<lparr>numRetry = 0, console = []\<rparr>"


section \<open>The texts that pass the validator\<close>

text \<open>The texts of the given items that \<open>isQuoteValid\<close> accepts, in order.\<close>

definition validTexts :: "config \<Rightarrow> node list \<Rightarrow> jsstring list" where
  "validTexts cfg items = filter (\<lambda>s. isQuoteValid cfg (JStr s)) (map plainQuote items)"

section \<open>The outline sections under the first section\<close>

text \<open>
  A dotted number has at least two components, the first of which is \<open>1\<close>. This is the
  selection in words, to be compared with the loop of \<open>getSectionsForPage\<close>.
\<close>

definition underFirstSection :: "string \<Rightarrow> bool" where
  "underFirstSection n =
     (length (split CHR ''.'' n) \<ge> 2 \<and> hd (split CHR ''.'' n) = ''1'')"

definition selectedIndexes :: "sec list \<Rightarrow> string list" where
  "selectedIndexes secs = map index (filter (\<lambda>s. underFirstSection (number s)) secs)"

section \<open>Worlds used in the examples\<close>

definition okXhr :: "'d \<Rightarrow> 'd xhr" where
  "okXhr d = \<lparr>status = 200, responseJSON = Some d\<rparr>"

definition failXhr :: "nat \<Rightarrow> 'd xhr" where
  "failXhr n = \<lparr>status = n, responseJSON = None\<rparr>"

text \<open>
  A page 42 with the given outline, every section of which renders as the given document.
\<close>

definition outlineOf :: "(string \<times> string) list \<Rightarrow> sec list" where
  "outlineOf ps = map (\<lambda>(i, n). \<lparr>index = i, number = n\<rparr>) ps"

definition pageWorld :: "config \<Rightarrow> sec list \<Rightarrow> node \<Rightarrow> rat \<Rightarrow> world" where
  "pageWorld cfg secs doc r =
     \<lparr>config = cfg,
      randomXhr = okXhr [Some 42],
      sectionsXhr = (\<lambda>pid. okXhr (Some \<lparr>sectionsTitle = ''Hamlet'', sectionList = secs\<rparr>)),
      textXhr = (\<lambda>pid si. okXhr (Some \<lparr>textTitle = ''Hamlet'', textMarkup = doc\<rparr>)),
      randomForSection = 0,
      randomForQuote = r\<rparr>"

definition hamletOutline :: "sec list" where
  "hamletOutline = outlineOf [(''1'', ''1''), (''2'', ''1.1'')]"

definition listDoc :: "jsstring list \<Rightarrow> node" where
  "listDoc items =
     Element ''HTML'' [Element ''HEAD'' [], Element ''BODY''
       [Element ''DIV'' [Element ''UL'' (map (\<lambda>s. Element ''LI'' [Text s]) items)]]]"

definition toBe :: jsstring where
  "toBe = utf16 ''To be or not to be, that is the question.''"

definition hamletItems :: "jsstring list" where
  "hamletItems = [utf16 ''1997'', toBe]"

definition hamletWorld :: "rat \<Rightarrow> world" where
  "hamletWorld r = pageWorld defaultConfig hamletOutline (listDoc hamletItems) r"

text \<open>A world in which the outline request is answered with status 500.\<close>

definition brokenSectionsWorld :: world where
  "brokenSectionsWorld =
     (pageWorld defaultConfig hamletOutline (listDoc hamletItems) 0)\<lparr>sectionsXhr := (\<lambda>pid. failXhr 500)\<rparr>"

text \<open>
  The item \<open><li>Hello <b>world</b> <sup>[1]</sup><ul><li>note</li></ul></li>\<close>, the document
  the parser builds for it inside \<open><ul>\<close> alone, and the same list inside a \<open><div>\<close>.
\<close>

definition helloItem :: node where
  "helloItem =
     Element ''LI'' [Text (utf16 ''Hello ''), Element ''B'' [Text (utf16 ''world'')],
       Text (utf16 '' ''), Element ''SUP'' [Text (utf16 ''[1]'')],
       Element ''UL'' [Element ''LI'' [Text (utf16 ''note'')]]]"

definition helloDoc :: node where
  "helloDoc =
     Element ''HTML'' [Element ''HEAD'' [], Element ''BODY'' [Element ''UL'' [helloItem]]]"

definition helloDivDoc :: node where
  "helloDivDoc =
     Element ''HTML'' [Element ''HEAD'' [], Element ''BODY''
       [Element ''DIV'' [Element ''UL'' [helloItem]]]]"

text \<open>
  The limit stored by \<open>setNumericLimit(0.3)\<close>, and a text of twenty characters, six of them
  digits, alone in its section.
\<close>

definition limit03 :: config where
  "limit03 = setNumericLimit (roundDouble (3 / 10)) defaultConfig"

definition sixDigits :: jsstring where
  "sixDigits = utf16 ''aaaaaaaaaaaaaa123456''"

definition sixDigitsWorld :: world where
  "sixDigitsWorld = pageWorld limit03 hamletOutline (listDoc [sixDigits]) 0"


text \<open>The item \<open><li>one <span>x</span> two</li>\<close>.\<close>

definition spanItem :: node where
  "spanItem =
     Element ''LI'' [Text (utf16 ''one ''), Element ''SPAN'' [Text (utf16 ''x'')],
       Text (utf16 '' two'')]"

section \<open>Rounding to a double\<close>

lemma expo_bounds:
  "0 < x \<Longrightarrow> 2 powi expo x \<le> x \<and> x < 2 powi (expo x + 1)"
proof (induction x rule: expo.induct)
  case (1 x)
  show ?case
  proof (cases "2 \<le> x")
    case True
    then have e: "expo x = expo (x / 2) + 1" using 1(3) by (subst expo.simps) simp
    have "2 powi expo (x / 2) \<le> x / 2 \<and> x / 2 < 2 powi (expo (x / 2) + 1)"
      using 1(1) True 1(3) by simp
    then show ?thesis
      unfolding e by (simp add: power_int_add field_simps)
  next
    case False
    show ?thesis
    proof (cases "x < 1")
      case True
      then have e: "expo x = expo (2 * x) - 1" using 1(3) False by (subst expo.simps) simp
      have "2 powi expo (2 * x) \<le> 2 * x \<and> 2 * x < 2 powi (expo (2 * x) + 1)"
        using 1(2) True False 1(3) by simp
      then show ?thesis
        unfolding e by (simp add: power_int_add power_int_diff field_simps)
    next
      case nl: False
      then have e: "expo x = 0" using 1(3) False by (subst expo.simps) simp
      show ?thesis unfolding e using False nl by simp
    qed
  qed
qed

lemma two_powi_less_D: "(2::rat) powi a < 2 powi b \<Longrightarrow> a < b"
proof (rule ccontr)
  assume l: "(2::rat) powi a < 2 powi b" and "\<not> a < b"
  then have "(2::rat) powi b \<le> 2 powi a" by (intro power_int_increasing) simp_all
  with l show False by simp
qed

lemma expo_unique:
  assumes "2 powi e \<le> x" and "x < 2 powi (e + 1)" and "0 < (x::rat)"
  shows "expo x = e"
proof -
  have b: "2 powi expo x \<le> x" "x < 2 powi (expo x + 1)"
    using expo_bounds [OF assms(3)] by simp_all
  have "(2::rat) powi e < 2 powi (expo x + 1)" using assms(1) b(2) by simp
  then have "e < expo x + 1" by (rule two_powi_less_D)
  moreover have "(2::rat) powi expo x < 2 powi (e + 1)" using assms(2) b(1) by simp
  then have "expo x < e + 1" by (rule two_powi_less_D)
  ultimately show ?thesis by simp
qed

lemma roundEven_bounds:
  "of_int (roundEven t) \<le> t + 1 / 2" "t - 1 / 2 \<le> of_int (roundEven t)"
  unfolding roundEven_def Let_def by (auto simp: not_less) linarith+

lemma quantum_pos: "0 < quantum x"
  by (simp add: quantum_def)

lemma quantum_le:
  assumes "0 < x"
  shows "quantum x \<le> max (x * 2 powi (- 52)) (2 powi (- 1074))"
proof (cases "- 1022 \<le> expo x")
  case True
  then have "quantum x = 2 powi (expo x + (- 52))"
    by (simp add: quantum_def max_def)
  also have "\<dots> = 2 powi expo x * 2 powi (- 52)"
    by (rule power_int_add) simp
  also have "\<dots> \<le> x * 2 powi (- 52)"
    using expo_bounds [OF assms] by (intro mult_right_mono) simp_all
  finally show ?thesis by simp
next
  case False
  then have "quantum x = 2 powi (- 1074)" by (simp add: quantum_def max_def)
  then show ?thesis by simp
qed

lemma roundDouble_upper:
  assumes "0 < x"
  shows "roundDouble x \<le> x + quantum x / 2"
proof -
  have "quantum x * of_int (roundEven (x / quantum x)) \<le> quantum x * (x / quantum x + 1 / 2)"
    using quantum_pos [of x] roundEven_bounds(1) [of "x / quantum x"]
    by (intro mult_left_mono) simp_all
  also have "\<dots> = x + quantum x / 2"
    using quantum_pos [of x] by (simp add: field_simps)
  finally show ?thesis using assms by (simp add: roundDouble_def)
qed

lemma roundDouble_nonneg: "0 \<le> x \<Longrightarrow> 0 \<le> roundDouble x"
proof -
  assume "0 \<le> x"
  have "0 \<le> x / quantum x"
    using quantum_pos [of x] \<open>0 \<le> x\<close> by simp
  then have "- 1 < (of_int (roundEven (x / quantum x)) :: rat)"
    using roundEven_bounds(2) [of "x / quantum x"] by linarith
  then have "0 \<le> roundEven (x / quantum x)" by linarith
  then show ?thesis
    using quantum_pos [of x] \<open>0 \<le> x\<close> by (simp add: roundDouble_def sgn_if)
qed

lemma two_powi_half: "(2::rat) powi n / 2 = 2 powi (n - 1)"
  by (simp add: power_int_diff)

lemma truncDouble_le: "0 \<le> x \<Longrightarrow> 0 \<le> truncDouble x \<and> truncDouble x \<le> x"
proof -
  assume x: "0 \<le> x"
  have q: "0 < quantum x" by (rule quantum_pos)
  have "0 \<le> x / quantum x" using q x by simp
  then have f: "0 \<le> \<lfloor>x / quantum x\<rfloor>" by simp
  have "quantum x * of_int \<lfloor>x / quantum x\<rfloor> \<le> quantum x * (x / quantum x)"
    using q by (intro mult_left_mono) simp_all
  also have "\<dots> = x" using q by simp
  finally show ?thesis
    using x q f by (simp add: truncDouble_def sgn_if)
qed

lemma half_le: "(1::rat) / 2 \<le> 1 - 2 powi (- 53)"
proof -
  have "(2::rat) powi (- 53) \<le> 2 powi (- 1)"
    by (intro power_int_increasing) simp_all
  also have "\<dots> = 1 / 2" by (simp add: power_int_minus)
  finally show ?thesis by simp
qed


lemma truncDouble_below_one:
  assumes "0 \<le> r" and "r < 1"
  shows "0 \<le> truncDouble r \<and> truncDouble r \<le> 1 - 2 powi (- 53)"
proof (cases "r < 1 / 2")
  case True
  then show ?thesis
    using truncDouble_le [OF assms(1)] half_le by linarith
next
  case False
  then have h: "1 / 2 \<le> r" by simp
  then have pos: "0 < r" by simp
  define u :: rat where "u = 2 powi (- 53)"
  define N :: int where "N = 2 ^ 53"
  have uN: "u * of_int N = 1" by (simp add: u_def N_def power_int_minus)
  have upos: "0 < u" by (simp add: u_def)
  have "(2::rat) powi (- 1) = 1 / 2" by (simp add: power_int_minus)
  then have "expo r = - 1"
    using h assms(2) pos by (intro expo_unique) simp_all
  then have q: "quantum r = u" by (simp add: quantum_def u_def)
  have "r / u = r * of_int N"
    using uN upos by (simp add: field_simps)
  moreover have "r * of_int N < of_int N" using assms(2) by (simp add: N_def)
  ultimately have "\<lfloor>r / u\<rfloor> < N"
    by (simp add: floor_less_iff)
  then have "\<lfloor>r / u\<rfloor> \<le> N - 1" by simp
  then have "(of_int \<lfloor>r / u\<rfloor> :: rat) \<le> of_int (N - 1)"
    by (simp only: of_int_le_iff)
  then have "u * (of_int \<lfloor>r / u\<rfloor> :: rat) \<le> u * of_int (N - 1)"
    using upos by (intro mult_left_mono) simp_all
  also have "\<dots> = 1 - u"
    using uN by (simp add: algebra_simps)
  finally have "truncDouble r \<le> 1 - u"
    using pos by (simp add: truncDouble_def q sgn_if)
  then show ?thesis
    using truncDouble_le [OF assms(1)] by (simp add: u_def)
qed

lemma floor_roundDouble_in_range:
  assumes d: "0 \<le> d" "d \<le> 1 - 2 powi (- 53)" and m: "0 < m"
  shows "0 \<le> \<lfloor>roundDouble (d * of_nat m)\<rfloor> \<and> \<lfloor>roundDouble (d * of_nat m)\<rfloor> < int m"
proof -
  let ?x = "d * of_nat m"
  let ?M = "of_nat m :: rat"
  have M: "1 \<le> ?M" using m by simp
  have e53: "(0::rat) < 2 powi (- 53)" by simp
  have x0: "0 \<le> ?x" using d(1) by simp
  have nonneg: "0 \<le> roundDouble ?x" using x0 by (rule roundDouble_nonneg)
  have xle: "?x \<le> ?M - ?M * 2 powi (- 53)"
  proof -
    have "?x \<le> (1 - 2 powi (- 53)) * ?M" using d(2) by (intro mult_right_mono) simp_all
    then show ?thesis by (simp add: algebra_simps)
  qed
  have lt: "roundDouble ?x < ?M"
  proof (cases "?x = 0")
    case True
    then show ?thesis using M by (simp add: roundDouble_def)
  next
    case False
    then have xpos: "0 < ?x" using x0 by (simp only: less_le) simp
    have u: "roundDouble ?x \<le> ?x + quantum ?x / 2" using xpos by (rule roundDouble_upper)
    have h52: "(2::rat) powi (- 52) / 2 = 2 powi (- 53)"
      using two_powi_half [of "- 52"] by simp
    have h1074: "(2::rat) powi (- 1074) / 2 = 2 powi (- 1075)"
      using two_powi_half [of "- 1074"] by simp
    have small: "(2::rat) powi (- 1075) < 2 powi (- 53)"
      by (intro power_int_strict_increasing) simp_all
    consider (a) "quantum ?x \<le> ?x * 2 powi (- 52)" | (b) "quantum ?x \<le> 2 powi (- 1074)"
      using quantum_le [OF xpos] by (auto simp: max_def split: if_splits)
    then show ?thesis
    proof cases
      case a
      then have "quantum ?x / 2 \<le> ?x * 2 powi (- 53)"
        using h52 by (simp add: field_simps)
      with u have "roundDouble ?x \<le> ?x * (1 + 2 powi (- 53))" by (simp add: algebra_simps)
      also have "\<dots> \<le> (?M - ?M * 2 powi (- 53)) * (1 + 2 powi (- 53))"
        using xle by (intro mult_right_mono) simp_all
      also have "\<dots> = ?M - ?M * (2 powi (- 53) * 2 powi (- 53))"
        by (simp add: algebra_simps)
      also have "\<dots> < ?M"
        using M e53 by simp
      finally show ?thesis .
    next
      case b
      then have "quantum ?x / 2 \<le> 2 powi (- 1075)" using h1074 by simp
      with u have "roundDouble ?x \<le> ?x + 2 powi (- 1075)" by simp
      also have "\<dots> < ?x + 2 powi (- 53)" using small by simp
      also have "\<dots> \<le> ?M - ?M * 2 powi (- 53) + 2 powi (- 53)" using xle by simp
      also have "\<dots> \<le> ?M"
      proof -
        have "1 * 2 powi (- 53) \<le> ?M * 2 powi (- 53)"
          using M by (intro mult_right_mono) simp_all
        then show ?thesis by simp
      qed
      finally show ?thesis .
    qed
  qed
  show ?thesis
    using nonneg lt by (simp add: floor_less_iff)
qed

lemma roundEven_of_int: "roundEven (of_int k) = k"
  by (simp add: roundEven_def)

lemma double_fixed:
  assumes "isDouble x"
  shows "truncDouble x = x \<and> roundDouble x = x"
proof -
  obtain m :: nat and e :: int where
    m: "m < 2 ^ 53" and e: "- 1074 \<le> e" and x: "\<bar>x\<bar> = of_nat m * 2 powi e"
    using assms unfolding isDouble_def by blast
  show ?thesis
  proof (cases "x = 0")
    case True
    then show ?thesis by (simp add: truncDouble_def roundDouble_def)
  next
    case False
    let ?X = "\<bar>x\<bar>"
    have X: "0 < ?X" using False by simp
    have "of_nat m < (2 ^ 53 :: rat)" using m by (metis of_nat_less_iff of_nat_numeral of_nat_power)
    then have "?X < 2 ^ 53 * 2 powi e" unfolding x by (intro mult_strict_right_mono) simp_all
    also have "\<dots> = 2 powi (53 + e)" by (simp add: power_int_add)
    finally have "(2::rat) powi expo ?X < 2 powi (53 + e)"
      using expo_bounds [OF X] by simp
    then have "expo ?X < 53 + e" by (rule two_powi_less_D)
    then have qe: "max (expo ?X) (- 1022) - 52 \<le> e" using e by simp
    define k where "k = nat (e - (max (expo ?X) (- 1022) - 52))"
    have "2 powi e = quantum ?X * (2::rat) powi (e - (max (expo ?X) (- 1022) - 52))"
      unfolding quantum_def by (simp add: power_int_add [symmetric])
    also have "(2::rat) powi (e - (max (expo ?X) (- 1022) - 52)) = 2 ^ k"
      using qe by (simp add: k_def power_int_def)
    finally have "?X = quantum ?X * of_int (int (m * 2 ^ k))"
      unfolding x by simp
    then have q: "?X / quantum ?X = of_int (int (m * 2 ^ k))"
      using quantum_pos [of ?X] by (simp add: field_simps)
    have "quantum ?X * of_int (roundEven (?X / quantum ?X)) = ?X"
      "quantum ?X * of_int \<lfloor>?X / quantum ?X\<rfloor> = ?X"
      unfolding q roundEven_of_int floor_of_int
      using q quantum_pos [of ?X] by (simp_all add: field_simps)
    then show ?thesis
      by (simp add: truncDouble_def roundDouble_def sgn_if abs_if split: if_splits)
  qed
qed

lemma roundDouble_0: "roundDouble 0 = 0"
  by (simp add: roundDouble_def)

lemma roundDouble_1: "roundDouble 1 = 1"
  by code_simp

lemma Math_random_0: "Math_random 0 = 0"
  by (simp add: Math_random_def truncDouble_def)

lemma randomNum_range:
  assumes "0 \<le> r" and "r < 1" and "0 < n"
  shows "0 \<le> randomNum r n \<and> randomNum r n < int n"
  unfolding randomNum_def Math_random_def
  using truncDouble_below_one [OF assms(1,2)] assms(3)
  by (intro floor_roundDouble_in_range) simp_all

lemma randomNum_0: "randomNum 0 n = 0" "randomNum r 0 = 0"
  by (simp_all add: randomNum_def Math_random_0 roundDouble_0)


section \<open>The validator decides by the thresholds\<close>

lemma digitRatio_Fin:
  "s \<noteq> [] \<Longrightarrow> digitRatio s = Fin (roundDouble (digitFraction s))"
  by (simp add: digitRatio_def js_div_def digitFraction_def)

lemma digitRatio_Nil: "digitRatio [] = NaN"
  by (simp add: digitRatio_def js_div_def countDigits_def)

lemma js_le_digitRatio:
  "js_le (digitRatio s) L \<longleftrightarrow> s \<noteq> [] \<and> \<not> js_gt (digitRatio s) L"
  by (cases "s = []") (auto simp: digitRatio_Nil digitRatio_Fin)

lemma isQuoteValid_JStr:
  "isQuoteValid cfg (JStr s) \<longleftrightarrow>
     s \<noteq> [] \<and> minLength cfg \<le> int (length s) \<and> int (length s) \<le> maxLength cfg
     \<and> \<not> js_gt (digitRatio s) (numericLimit cfg)"
  by (auto simp: isQuoteValid_def digitRatio_def Let_def)

lemma isQuoteValid_thresholds:
  "isQuoteValid cfg (JStr s) \<longleftrightarrow>
     minLength cfg \<le> int (length s) \<and> int (length s) \<le> maxLength cfg
     \<and> js_le (digitRatio s) (numericLimit cfg)"
  unfolding isQuoteValid_JStr js_le_digitRatio by blast

lemma isQuoteValid_truthy: "isQuoteValid cfg v \<Longrightarrow> \<exists>s. v = JStr s \<and> s \<noteq> []"
  by (cases v) (auto simp: isQuoteValid_def split: if_splits)

lemma checkQuote_Fulfilled:
  "checkQuote cfg q = Fulfilled q' \<longleftrightarrow> q' = q \<and> isQuoteValid cfg (quote q)"
  by (cases "quote q")
     (auto simp: checkQuote_def checkQuote_run_def isQuoteValid_def Let_def)

lemma limit03_value: "numericLimit limit03 = 5404319552844595 / 2 ^ 54"
  by code_simp

lemma sixDigits_counts: "length sixDigits = 20" "countDigits sixDigits = 6"
  by code_simp+

lemma valid_sixDigits: "isQuoteValid limit03 (JStr sixDigits)"
  by code_simp

lemma sixDigits_fraction: "\<not> digitFraction sixDigits \<le> numericLimit limit03"
  by code_simp

text \<open>
  Claim C2, as stated, fails when the digit ratio is the exact fraction of digits. After
  \<open>setNumericLimit(0.3)\<close> the limit is the double nearest to three tenths, which is below
  three tenths. A string of twenty characters with six digits has the fraction three tenths,
  above the limit, and a length within the bounds, yet \<open>isQuoteValid\<close> accepts it: the
  quotient it computes is rounded to the same double as the limit.
\<close>

theorem validate_exact_ratio_counterexample:
  "numericLimit limit03 = 5404319552844595 / 2 ^ 54
   \<and> length sixDigits = 20 \<and> countDigits sixDigits = 6
   \<and> isQuoteValid limit03 (JStr sixDigits)
   \<and> \<not> digitFraction sixDigits \<le> numericLimit limit03"
  by (intro conjI limit03_value sixDigits_counts valid_sixDigits sixDigits_fraction)

text \<open>
  Claim C2, amended. For every string \<open>s\<close>, \<open>isQuoteValid\<close> answers true exactly when
  \<open>minLength \<le> length s \<le> maxLength\<close> and the digit ratio it computes is at most
  \<open>numericLimit\<close>, for the configuration it is called with; after a setter, that is the value
  just set. The digit ratio computed is \<open>NaN\<close> for the empty string, which is not at most
  anything, and otherwise the fraction of digits rounded to a double. \<open>checkQuote\<close> of the
  earlier version accepts under the same condition.
\<close>

theorem validate_iff_thresholds:
  "(isQuoteValid cfg (JStr s) \<longleftrightarrow>
      minLength cfg \<le> int (length s) \<and> int (length s) \<le> maxLength cfg
      \<and> js_le (digitRatio s) (numericLimit cfg))
   \<and> (isQuoteValid (setMinLength m cfg) (JStr s) \<longleftrightarrow>
      m \<le> int (length s) \<and> int (length s) \<le> maxLength cfg
      \<and> js_le (digitRatio s) (numericLimit cfg))
   \<and> (isQuoteValid (setMaxLength m cfg) (JStr s) \<longleftrightarrow>
      minLength cfg \<le> int (length s) \<and> int (length s) \<le> m
      \<and> js_le (digitRatio s) (numericLimit cfg))
   \<and> (isQuoteValid (setNumericLimit p cfg) (JStr s) \<longleftrightarrow>
      minLength cfg \<le> int (length s) \<and> int (length s) \<le> maxLength cfg
      \<and> js_le (digitRatio s) p)
   \<and> (checkQuote cfg \<lparr>title = t, quote = JStr s\<rparr> = Fulfilled \<lparr>title = t, quote = JStr s\<rparr> \<longleftrightarrow>
      minLength cfg \<le> int (length s) \<and> int (length s) \<le> maxLength cfg
      \<and> js_le (digitRatio s) (numericLimit cfg))
   \<and> digitRatio s = (if s = [] then NaN else Fin (roundDouble (digitFraction s)))"
  using isQuoteValid_thresholds [of cfg s] isQuoteValid_thresholds [of "setMinLength m cfg" s]
    isQuoteValid_thresholds [of "setMaxLength m cfg" s]
    isQuoteValid_thresholds [of "setNumericLimit p cfg" s]
    digitRatio_Nil digitRatio_Fin [of s]
  by (simp add: setMinLength_def setMaxLength_def setNumericLimit_def checkQuote_Fulfilled)

text \<open>
  Claim C8. \<open>isQuoteValid\<close> answers false on the empty string, on \<open>null\<close> and on \<open>undefined\<close>
  under every configuration, also one whose \<open>minLength\<close> is zero or negative, and it does so
  before evaluating anything else. The validator is a function of the configuration and the
  candidate alone and has a verdict on every input.
\<close>

theorem validate_rejects_empty_and_missing:
  "isQuoteValid cfg (JStr []) = False \<and> isQuoteValid cfg JNull = False
   \<and> isQuoteValid cfg JUndefined = False
   \<and> isQuoteValid_run cfg (JStr []) = (False, [])
   \<and> isQuoteValid_run cfg JNull = (False, [])
   \<and> isQuoteValid_run cfg JUndefined = (False, [])"
  by (simp add: isQuoteValid_def)

text \<open>
  Claim C10. Every division \<open>isQuoteValid\<close> evaluates has a positive divisor and a finite
  quotient, and is evaluated on a truthy candidate only: on a falsy candidate the function
  returns false with no division evaluated. The same holds of \<open>checkQuote\<close>.
\<close>

theorem division_operand_positive:
  "((a, b) \<in> set (snd (isQuoteValid_run cfg v)) \<longrightarrow>
      truthy v \<and> 0 < b \<and> js_div a b = Fin (roundDouble (of_nat a / of_nat b)))
   \<and> ((a, b) \<in> set (snd (checkQuote_run cfg q)) \<longrightarrow>
      truthy (quote q) \<and> 0 < b \<and> js_div a b = Fin (roundDouble (of_nat a / of_nat b)))
   \<and> (\<not> truthy v \<longrightarrow> isQuoteValid_run cfg v = (False, []))
   \<and> (\<not> truthy (quote q) \<longrightarrow> snd (checkQuote_run cfg q) = [])"
  by (cases v; cases "quote q")
     (auto simp: checkQuote_run_def Let_def js_div_def split: if_splits)

theorem division_operand_positive_witness:
  "(4, 4) \<in> set (snd (isQuoteValid_run defaultConfig (JStr (utf16 ''1997''))))
   \<and> (4, 4) \<in> set (snd (checkQuote_run defaultConfig
                         \<lparr>title = ''Hamlet'', quote = JStr (utf16 ''1997'')\<rparr>))
   \<and> js_div 4 4 = Fin 1
   \<and> \<not> truthy JNull \<and> isQuoteValid_run defaultConfig JNull = (False, [])
   \<and> snd (checkQuote_run defaultConfig \<lparr>title = ''Hamlet'', quote = JNull\<rparr>) = []"
proof -
  have a: "(4, 4) \<in> set (snd (isQuoteValid_run defaultConfig (JStr (utf16 ''1997''))))"
    by (simp add: utf16_def countDigits_def isDigit_def)
  have b: "(4, 4) \<in> set (snd (checkQuote_run defaultConfig
             \<lparr>title = ''Hamlet'', quote = JStr (utf16 ''1997'')\<rparr>))"
    by (simp add: checkQuote_run_def utf16_def countDigits_def isDigit_def)
  have c: "\<not> truthy JNull" by simp
  show ?thesis
    using a b c
      division_operand_positive [of 4 4 defaultConfig "JStr (utf16 ''1997'')"
        "\<lparr>title = ''Hamlet'', quote = JStr (utf16 ''1997'')\<rparr>"]
      division_operand_positive [of 4 4 defaultConfig JNull
        "\<lparr>title = ''Hamlet'', quote = JNull\<rparr>"]
    by (simp add: roundDouble_1)
qed

section \<open>Section selection\<close>

lemma split_nonempty: "split sep s \<noteq> []"
  by (induction s) (auto split: list.splits)

lemma hd_split: "hd (split sep s) = takeWhile (\<lambda>c. c \<noteq> sep) s"
  by (induction s) (auto split: list.splits simp: split_nonempty)

lemma length_split: "length (split sep s) = Suc (length (filter (\<lambda>c. c = sep) s))"
  by (induction s) (auto split: list.splits simp: split_nonempty)

lemma pushIfQuoteSection_eq:
  "pushIfQuoteSection acc s = (if underFirstSection (number s) then acc @ [index s] else acc)"
  using split_nonempty [of "CHR ''.''" "number s"]
  by (auto simp: pushIfQuoteSection_def underFirstSection_def Let_def hd_conv_nth Suc_le_eq)

lemma foldl_pushIfQuoteSection:
  "foldl pushIfQuoteSection acc secs = acc @ selectedIndexes secs"
  by (induction secs arbitrary: acc) (auto simp: pushIfQuoteSection_eq selectedIndexes_def)


lemma underFirstSection_prefix:
  "underFirstSection n \<longleftrightarrow> (\<exists>rest. n = ''1.'' @ rest)"
proof
  assume u: "underFirstSection n"
  then have tw: "takeWhile (\<lambda>c. c \<noteq> CHR ''.'') n = [CHR ''1'']"
    and len: "filter (\<lambda>c. c = CHR ''.'') n \<noteq> []"
    by (auto simp: underFirstSection_def hd_split length_split)
  show "\<exists>rest. n = ''1.'' @ rest"
  proof (cases n)
    case Nil
    with tw show ?thesis by simp
  next
    case (Cons c cs)
    with tw have c: "c = CHR ''1''" and cs: "takeWhile (\<lambda>c. c \<noteq> CHR ''.'') cs = []"
      by (simp_all split: if_splits)
    show ?thesis
    proof (cases cs)
      case Nil
      with Cons c len show ?thesis by simp
    next
      case (Cons d ds)
      with cs have "d = CHR ''.''" by (simp split: if_splits)
      with Cons \<open>n = c # cs\<close> c show ?thesis by simp
    qed
  qed
next
  assume "\<exists>rest. n = ''1.'' @ rest"
  then obtain rest where "n = CHR ''1'' # CHR ''.'' # rest" by auto
  then show "underFirstSection n"
    by (simp add: underFirstSection_def hd_split length_split)
qed


lemma getSectionsForPage_Some:
  "ajaxGet (sectionsXhr w pid) = Fulfilled (Some p) \<Longrightarrow>
   getSectionsForPage w pid =
     Fulfilled \<lparr>pageId = pid, titles = sectionsTitle p,
       sections = (if selectedIndexes (sectionList p) = [] then [''1'']
                   else selectedIndexes (sectionList p))\<rparr>"
  by (simp add: getSectionsForPage_def foldl_pushIfQuoteSection Let_def)

lemma getSectionsForPage_Fulfilled:
  "getSectionsForPage w pid = Fulfilled out \<Longrightarrow>
   \<exists>p. ajaxGet (sectionsXhr w pid) = Fulfilled (Some p)"
  by (auto simp: getSectionsForPage_def split: promise.splits option.splits)

lemma getSectionsForPage_nonempty:
  assumes "getSectionsForPage w pid = Fulfilled out"
  shows "sections out \<noteq> [] \<and> pageId out = pid"
proof -
  obtain p where "ajaxGet (sectionsXhr w pid) = Fulfilled (Some p)"
    using getSectionsForPage_Fulfilled [OF assms] by blast
  from getSectionsForPage_Some [OF this] assms show ?thesis
    by (cases "selectedIndexes (sectionList p) = []") auto
qed

text \<open>
  Claim C3. \<open>getSectionsForPage\<close> is fulfilled exactly when the request yields a body with
  \<open>parse\<close>, and then with the indexes, in outline order, of the sections whose dotted number
  has at least two components and first component \<open>1\<close> (that is, whose number starts with
  \<open>1.\<close>), or with the one index \<open>1\<close> where there is no such section. The returned list is
  never empty. For the numbers 1, 1.1, 1.2, 2, 2.1 the result is the indexes of 1.1 and 1.2;
  for 1, 2, 3 it is the single index \<open>1\<close>.
\<close>

theorem getSectionsForPage_selects:
  "(getSectionsForPage w pid = Fulfilled out \<longleftrightarrow>
      (\<exists>p. ajaxGet (sectionsXhr w pid) = Fulfilled (Some p)
         \<and> out = \<lparr>pageId = pid, titles = sectionsTitle p,
                  sections = (if selectedIndexes (sectionList p) = [] then [''1'']
                              else selectedIndexes (sectionList p))\<rparr>))
   \<and> (getSectionsForPage w pid = Fulfilled out \<longrightarrow> sections out \<noteq> [])
   \<and> (underFirstSection n \<longleftrightarrow> (\<exists>rest. n = ''1.'' @ rest))"
proof -
  have "getSectionsForPage w pid = Fulfilled out \<longleftrightarrow>
      (\<exists>p. ajaxGet (sectionsXhr w pid) = Fulfilled (Some p)
         \<and> out = \<lparr>pageId = pid, titles = sectionsTitle p,
                  sections = (if selectedIndexes (sectionList p) = [] then [''1'']
                              else selectedIndexes (sectionList p))\<rparr>)"
    (is "?l \<longleftrightarrow> ?r")
  proof
    assume ?l
    then obtain p where p: "ajaxGet (sectionsXhr w pid) = Fulfilled (Some p)"
      using getSectionsForPage_Fulfilled by blast
    from getSectionsForPage_Some [OF p] \<open>?l\<close> p show ?r by auto
  next
    assume ?r
    then show ?l using getSectionsForPage_Some by auto
  qed
  then show ?thesis
    using getSectionsForPage_nonempty [of w pid out] underFirstSection_prefix [of n] by blast
qed

lemma ajaxGet_okXhr: "ajaxGet (okXhr d) = Fulfilled d"
  by (simp add: ajaxGet_def okXhr_def)


lemma sectionsXhr_pageWorld:
  "ajaxGet (sectionsXhr (pageWorld cfg secs doc r) pid)
     = Fulfilled (Some \<lparr>sectionsTitle = ''Hamlet'', sectionList = secs\<rparr>)"
  by (simp add: pageWorld_def ajaxGet_okXhr)

theorem getSectionsForPage_selects_witness:
  "getSectionsForPage
     (pageWorld defaultConfig
        (outlineOf [(''1'', ''1''), (''2'', ''1.1''), (''3'', ''1.2''), (''4'', ''2''), (''5'', ''2.1'')])
        helloDivDoc 0) 42
     = Fulfilled \<lparr>pageId = 42, titles = ''Hamlet'', sections = [''2'', ''3'']\<rparr>
   \<and> getSectionsForPage
     (pageWorld defaultConfig (outlineOf [(''1'', ''1''), (''2'', ''2''), (''3'', ''3'')])
        helloDivDoc 0) 42
     = Fulfilled \<lparr>pageId = 42, titles = ''Hamlet'', sections = [''1'']\<rparr>
   \<and> sections \<lparr>pageId = 42, titles = ''Hamlet'', sections = [''2'', ''3'']\<rparr> \<noteq> []
   \<and> underFirstSection ''1.2'' \<and> \<not> underFirstSection ''2.1'' \<and> \<not> underFirstSection ''1''"
proof -
  let ?s1 = "outlineOf [(''1'', ''1''), (''2'', ''1.1''), (''3'', ''1.2''), (''4'', ''2''), (''5'', ''2.1'')]"
  let ?s2 = "outlineOf [(''1'', ''1''), (''2'', ''2''), (''3'', ''3'')]"
  have u: "underFirstSection ''1.2''" "\<not> underFirstSection ''2.1''" "\<not> underFirstSection ''1''"
     "underFirstSection ''1.1''" "\<not> underFirstSection ''2''" "\<not> underFirstSection ''3''"
    by (simp_all add: underFirstSection_def)
  have s1: "selectedIndexes ?s1 = [''2'', ''3'']"
    by (simp add: selectedIndexes_def outlineOf_def u)
  have s2: "selectedIndexes ?s2 = []"
    by (simp add: selectedIndexes_def outlineOf_def u)
  have a: "getSectionsForPage (pageWorld defaultConfig ?s1 helloDivDoc 0) 42
     = Fulfilled \<lparr>pageId = 42, titles = ''Hamlet'', sections = [''2'', ''3'']\<rparr>"
    using getSectionsForPage_selects [of "pageWorld defaultConfig ?s1 helloDivDoc 0" 42
        "\<lparr>pageId = 42, titles = ''Hamlet'', sections = [''2'', ''3'']\<rparr>"]
    by (simp add: sectionsXhr_pageWorld s1)
  have b: "getSectionsForPage (pageWorld defaultConfig ?s2 helloDivDoc 0) 42
     = Fulfilled \<lparr>pageId = 42, titles = ''Hamlet'', sections = [''1'']\<rparr>"
    using getSectionsForPage_selects [of "pageWorld defaultConfig ?s2 helloDivDoc 0" 42
        "\<lparr>pageId = 42, titles = ''Hamlet'', sections = [''1'']\<rparr>"]
    by (simp add: sectionsXhr_pageWorld s2)
  show ?thesis using a b u(1-3) by simp
qed

section \<open>The retry loop ends\<close>

lemma run_state_update:
  "st\<lparr>console := c, numRetry := n\<rparr> = \<lparr>numRetry = n, console = c\<rparr>"
  by (cases st) simp

lemma mainSequence_unfold:
  "mainSequence limit ch env st =
     (case ch (env (numRetry st)) of
        Fulfilled q \<Rightarrow> (Fulfilled q, st)
      | Pending \<Rightarrow> (Pending, st)
      | Rejected r \<Rightarrow>
          if limit \<le> numRetry st + 1
          then (Rejected (Message ''Retry limit reached''),
                \<lparr>numRetry = numRetry st + 1, console = console st @ [r]\<rparr>)
          else mainSequence limit ch env
                \<lparr>numRetry = numRetry st + 1, console = console st @ [r]\<rparr>)"
  by (subst mainSequence.simps)
     (simp add: checkRetry.simps Let_def run_state_update split: promise.splits)

lemma mainSequence_cases:
  obtains
    (fulfilled) q where "ch (env (numRetry st)) = Fulfilled q"
      and "mainSequence limit ch env st = (Fulfilled q, st)"
  | (pending) "ch (env (numRetry st)) = Pending"
      and "mainSequence limit ch env st = (Pending, st)"
  | (exhausted) r where "ch (env (numRetry st)) = Rejected r" and "limit \<le> numRetry st + 1"
      and "mainSequence limit ch env st =
             (Rejected (Message ''Retry limit reached''),
              \<lparr>numRetry = numRetry st + 1, console = console st @ [r]\<rparr>)"
  | (retry) r where "ch (env (numRetry st)) = Rejected r" and "numRetry st + 1 < limit"
      and "mainSequence limit ch env st =
             mainSequence limit ch env
               \<lparr>numRetry = numRetry st + 1, console = console st @ [r]\<rparr>"
proof -
  note eq = mainSequence_unfold [of limit ch env st]
  show ?thesis
  proof (cases "ch (env (numRetry st))")
    case (Fulfilled q)
    with eq fulfilled show ?thesis by simp
  next
    case (Rejected r)
    show ?thesis
    proof (cases "limit \<le> numRetry st + 1")
      case True
      with eq Rejected exhausted show ?thesis by simp
    next
      case False
      with eq Rejected retry [of r] show ?thesis by simp
    qed
  next
    case Pending
    with eq pending show ?thesis by simp
  qed
qed

lemma mainSequence_exhaust:
  assumes "\<forall>k. numRetry st \<le> k \<and> k < limit \<longrightarrow> ch (env k) = Rejected (rs k)"
    and "numRetry st < limit"
  shows "mainSequence limit ch env st =
           (Rejected (Message ''Retry limit reached''),
            \<lparr>numRetry = limit, console = console st @ map rs [numRetry st..<limit]\<rparr>)"
  using assms
proof (induction "limit - numRetry st" arbitrary: st)
  case 0
  then show ?case by simp
next
  case (Suc n)
  have rej: "ch (env (numRetry st)) = Rejected (rs (numRetry st))"
    using Suc.prems by simp
  have upt: "[numRetry st..<limit] = numRetry st # [Suc (numRetry st)..<limit]"
    using Suc.prems(2) by (simp add: upt_conv_Cons)
  show ?case
  proof (cases rule: mainSequence_cases [of ch env st limit])
    case (exhausted r)
    with Suc.prems(2) have "limit = Suc (numRetry st)" by simp
    with exhausted rej show ?thesis by simp
  next
    case (retry r)
    let ?st = "\<lparr>numRetry = numRetry st + 1, console = console st @ [r]\<rparr>"
    have "mainSequence limit ch env ?st =
           (Rejected (Message ''Retry limit reached''),
            \<lparr>numRetry = limit, console = console ?st @ map rs [numRetry ?st..<limit]\<rparr>)"
      using Suc.hyps(2) Suc.prems retry(2) by (intro Suc.hyps(1)) auto
    with retry rej upt show ?thesis by simp
  qed (use rej in simp_all)
qed


lemma mainSequence_accept:
  "mainSequence limit ch env st = (Fulfilled res, st') \<Longrightarrow>
     ch (env (numRetry st')) = Fulfilled res"
proof (induction "limit - numRetry st" arbitrary: st)
  case 0
  then show ?case
    by (cases rule: mainSequence_cases [of ch env st limit]) auto
next
  case (Suc n)
  show ?case
  proof (cases rule: mainSequence_cases [of ch env st limit])
    case (retry r')
    let ?st = "\<lparr>numRetry = numRetry st + 1, console = console st @ [r']\<rparr>"
    have "mainSequence limit ch env ?st = (Fulfilled res, st')"
      using Suc.prems retry by simp
    moreover have "n = limit - numRetry ?st" using Suc.hyps(2) by simp
    ultimately show ?thesis using Suc.hyps(1) by blast
  qed (use Suc.prems in auto)
qed

lemma mainSequence_init_exhaust:
  assumes "\<forall>k<limit. ch (env k) = Rejected (rs k)" and "0 < limit"
  shows "mainSequence limit ch env \<lparr>numRetry = 0, console = []\<rparr> =
           (Rejected (Message ''Retry limit reached''),
            \<lparr>numRetry = limit, console = map rs [0..<limit]\<rparr>)"
  using mainSequence_exhaust [of "\<lparr>numRetry = 0, console = []\<rparr>" limit ch env rs] assms
  by simp



lemma RETRY_LIMIT_pos: "0 < RETRY_LIMIT" "1 < RETRY_LIMIT"
  by (simp_all add: RETRY_LIMIT_def)






lemma ajaxGet_status0: "status x = 0 \<Longrightarrow> ajaxGet x = Pending"
  by (simp add: ajaxGet_def)





lemma chain_brokenSectionsWorld: "chain brokenSectionsWorld = Rejected (InvalidResponse 500)"
  by (simp add: chain_def getRandomPage_def getSectionsForPage_def brokenSectionsWorld_def
      pageWorld_def ajaxGet_def okXhr_def failXhr_def)





section \<open>Extraction and the accepted quote\<close>

lemma foldl_pushIfValid:
  "foldl (pushIfValid cfg) acc items = acc @ validTexts cfg items"
  by (induction items arbitrary: acc) (auto simp: pushIfValid_def validTexts_def Let_def)

lemma foldl_pushOuterText:
  "foldl pushOuterText acc items =
     acc @ map (\<lambda>li. outerText (replaceUnwanted childrenToKeep li)) items"
  by (induction items arbitrary: acc) (auto simp: pushOuterText_def)

lemma getQuotesForSection_Some:
  "ajaxGet (textXhr w pid si) = Fulfilled (Some p) \<Longrightarrow>
   getQuotesForSection w pid si =
     (if validTexts (config w) (querySelectorAll (textMarkup p)) = []
      then Rejected (Message ''Section has no valid quote.'')
      else Fulfilled \<lparr>batchTitles = textTitle p,
             quotes = validTexts (config w) (querySelectorAll (textMarkup p))\<rparr>)"
  by (simp add: getQuotesForSection_def foldl_pushIfValid Let_def)

lemma getQuotesForSection_Fulfilled:
  assumes "getQuotesForSection w pid si = Fulfilled b"
  shows "\<exists>p. ajaxGet (textXhr w pid si) = Fulfilled (Some p)
           \<and> quotes b = validTexts (config w) (querySelectorAll (textMarkup p))
           \<and> batchTitles b = textTitle p \<and> quotes b \<noteq> []"
proof -
  obtain p :: text_parse where p: "ajaxGet (textXhr w pid si) = Fulfilled (Some p)"
    using assms by (auto simp: getQuotesForSection_def split: promise.splits option.splits)
  from getQuotesForSection_Some [OF p] assms p show ?thesis
    by (auto split: if_splits)
qed

lemma getQuotesForSection_part001_Some:
  "ajaxGet (textXhr w pid si) = Fulfilled (Some p) \<Longrightarrow>
   getQuotesForSection_part001 w pid si =
     Fulfilled \<lparr>batchTitles = textTitle p,
       quotes = map (\<lambda>li. outerText (replaceUnwanted childrenToKeep li))
                  (querySelectorAll (textMarkup p))\<rparr>"
  by (simp add: getQuotesForSection_part001_def foldl_pushOuterText Let_def)

lemma randomQuote_mem:
  assumes "0 \<le> r" and "r < 1" and "quotes b \<noteq> []"
  shows "\<exists>q \<in> set (quotes b). randomQuote r b = JStr q"
proof -
  have "0 \<le> randomNum r (length (quotes b)) \<and> randomNum r (length (quotes b)) < int (length (quotes b))"
    using assms by (intro randomNum_range) auto
  then show ?thesis
    by (auto simp: randomQuote_def js_nth_def)
qed

lemma validTexts_valid: "q \<in> set (validTexts cfg items) \<Longrightarrow> isQuoteValid cfg (JStr q)"
  by (simp add: validTexts_def)

lemma thenP_Fulfilled:
  "thenP p f = Fulfilled y \<longleftrightarrow> (\<exists>x. p = Fulfilled x \<and> f x = Fulfilled y)"
  by (cases p) auto

lemma chain_Fulfilled:
  "chain w = Fulfilled res \<longleftrightarrow>
     (\<exists>pid data b. getRandomPage w = Fulfilled pid \<and> getSectionsForPage w pid = Fulfilled data
        \<and> getQuotesForSection w (pageId data) (randomSection (randomForSection w) (sections data))
            = Fulfilled b
        \<and> res = chooseQuote (randomForQuote w) b)"
  unfolding chain_def thenP_Fulfilled by auto

lemma chain_part001_Fulfilled:
  "chain_part001 w = Fulfilled res \<longleftrightarrow>
     (\<exists>pid data b. getRandomPage_part001 w = Fulfilled pid
        \<and> getSectionsForPage w pid = Fulfilled data
        \<and> getQuotesForSection_part001 w (pageId data)
            (randomSection (randomForSection w) (sections data)) = Fulfilled b
        \<and> res = chooseQuote (randomForQuote w) b
        \<and> isQuoteValid (config w) (quote res))"
  unfolding chain_part001_def thenP_Fulfilled checkQuote_Fulfilled by auto

lemma chain_valid:
  assumes "chain w = Fulfilled res" and "0 \<le> randomForQuote w" and "randomForQuote w < 1"
  shows "isQuoteValid (config w) (quote res)"
proof -
  obtain data :: outline and b where
    b: "getQuotesForSection w (pageId data) (randomSection (randomForSection w) (sections data))
          = Fulfilled b"
    and res: "res = chooseQuote (randomForQuote w) b"
    using assms(1) unfolding chain_Fulfilled by blast
  from getQuotesForSection_Fulfilled [OF b] obtain p :: text_parse where
    q: "quotes b = validTexts (config w) (querySelectorAll (textMarkup p))" "quotes b \<noteq> []"
    by blast
  obtain q where "q \<in> set (quotes b)" "randomQuote (randomForQuote w) b = JStr q"
    using randomQuote_mem [OF assms(2,3) q(2)] by blast
  then show ?thesis
    using q(1) validTexts_valid [of q "config w"] by (simp add: res chooseQuote_def)
qed


lemma valid_thresholds:
  assumes "isQuoteValid cfg v"
  shows "\<exists>s. v = JStr s \<and> minLength cfg \<le> int (length s) \<and> int (length s) \<le> maxLength cfg
           \<and> js_le (digitRatio s) (numericLimit cfg)
           \<and> digitRatio s = Fin (roundDouble (digitFraction s))"
proof -
  obtain s where s: "v = JStr s" "s \<noteq> []" using isQuoteValid_truthy [OF assms] by blast
  with assms have "isQuoteValid cfg (JStr s)" by simp
  then show ?thesis unfolding isQuoteValid_thresholds using s digitRatio_Fin [of s] by simp
qed

text \<open>
  Claim C9. In random-wikiquote.js a fulfilled \<open>getQuotesForSection\<close> carries a non-empty list
  of quotes, each of which \<open>isQuoteValid\<close> accepts under the configuration of the attempt, so
  the quote \<open>randomQuote\<close> reads from it, for a value of \<open>Math.random()\<close> in \<open>[0, 1)\<close>, is
  valid too. When the section renders but none of its items has a valid text,
  \<open>getQuotesForSection\<close> rejects with \<open>Section has no valid quote.\<close>
\<close>

theorem extraction_prefilters:
  "(getQuotesForSection w pid si = Fulfilled b \<longrightarrow>
      quotes b \<noteq> [] \<and> (\<forall>q \<in> set (quotes b). isQuoteValid (config w) (JStr q))
      \<and> (0 \<le> r \<and> r < 1 \<longrightarrow> isQuoteValid (config w) (randomQuote r b)))
   \<and> (ajaxGet (textXhr w pid si) = Fulfilled (Some p)
       \<and> (\<forall>li \<in> set (querySelectorAll (textMarkup p)).
             \<not> isQuoteValid (config w) (JStr (plainQuote li))) \<longrightarrow>
      getQuotesForSection w pid si = Rejected (Message ''Section has no valid quote.''))"
proof (intro conjI impI)
  assume f: "getQuotesForSection w pid si = Fulfilled b"
  from getQuotesForSection_Fulfilled [OF f] obtain p' :: text_parse where
    q: "quotes b = validTexts (config w) (querySelectorAll (textMarkup p'))" "quotes b \<noteq> []"
    by blast
  show "quotes b \<noteq> []" by (rule q(2))
  show v: "\<forall>q \<in> set (quotes b). isQuoteValid (config w) (JStr q)"
    unfolding q(1) by (simp add: validTexts_def)
  assume "0 \<le> r \<and> r < 1"
  then obtain x where "x \<in> set (quotes b)" "randomQuote r b = JStr x"
    using randomQuote_mem [of r b] q(2) by blast
  with v show "isQuoteValid (config w) (randomQuote r b)" by simp
next
  assume a: "ajaxGet (textXhr w pid si) = Fulfilled (Some p)
       \<and> (\<forall>li \<in> set (querySelectorAll (textMarkup p)).
             \<not> isQuoteValid (config w) (JStr (plainQuote li)))"
  then have "validTexts (config w) (querySelectorAll (textMarkup p)) = []"
    by (simp add: validTexts_def filter_empty_conv)
  with a show "getQuotesForSection w pid si = Rejected (Message ''Section has no valid quote.'')"
    by (simp add: getQuotesForSection_Some)
qed

lemma select_item: "select ''DIV'' ''UL'' (Element ''LI'' [Text s]) = [Element ''LI'' [Text s]]"
  by simp

lemma querySelectorAll_listDoc:
  "querySelectorAll (listDoc items) = map (\<lambda>s. Element ''LI'' [Text s]) items"
proof -
  have "concat (map (select ''DIV'' ''UL'') (map (\<lambda>s. Element ''LI'' [Text s]) items))
          = map (\<lambda>s. Element ''LI'' [Text s]) items"
    by (induction items) simp_all
  then show ?thesis
    by (simp add: querySelectorAll_def listDoc_def)
qed

lemma plainQuote_text: "plainQuote (Element t [Text s]) = trim (collapseSpaces s)"
  by (simp add: plainQuote_def elementPositions_def)

lemma trim_collapse_toBe: "trim (collapseSpaces toBe) = toBe"
  by code_simp

lemma trim_collapse_1997: "trim (collapseSpaces (utf16 ''1997'')) = utf16 ''1997''"
  by code_simp

lemma valid_toBe: "isQuoteValid defaultConfig (JStr toBe)"
  by code_simp

lemma invalid_1997: "\<not> isQuoteValid defaultConfig (JStr (utf16 ''1997''))"
  by code_simp

lemma validTexts_hamlet:
  "validTexts defaultConfig (querySelectorAll (listDoc hamletItems)) = [toBe]"
  by (simp add: validTexts_def querySelectorAll_listDoc hamletItems_def plainQuote_text
      trim_collapse_toBe trim_collapse_1997 valid_toBe invalid_1997)

lemma getRandomPage_pageWorld: "getRandomPage (pageWorld cfg secs doc r) = Fulfilled 42"
  by (simp add: getRandomPage_def pageWorld_def ajaxGet_okXhr)

lemma getRandomPage_part001_pageWorld:
  "getRandomPage_part001 (pageWorld cfg secs doc r) = Fulfilled 42"
  by (simp add: getRandomPage_part001_def pageWorld_def ajaxGet_okXhr)

lemma textXhr_pageWorld:
  "ajaxGet (textXhr (pageWorld cfg secs doc r) pid si)
     = Fulfilled (Some \<lparr>textTitle = ''Hamlet'', textMarkup = doc\<rparr>)"
  by (simp add: pageWorld_def ajaxGet_okXhr)

lemma pageWorld_sel:
  "config (pageWorld cfg secs doc r) = cfg"
  "randomForSection (pageWorld cfg secs doc r) = 0"
  "randomForQuote (pageWorld cfg secs doc r) = r"
  by (simp_all add: pageWorld_def)

lemma selectedIndexes_hamlet: "selectedIndexes hamletOutline = [''2'']"
  by (simp add: selectedIndexes_def hamletOutline_def outlineOf_def underFirstSection_def)

lemma getSectionsForPage_hamlet:
  "getSectionsForPage (pageWorld cfg hamletOutline doc r) pid
     = Fulfilled \<lparr>pageId = pid, titles = ''Hamlet'', sections = [''2'']\<rparr>"
  by (simp add: getSectionsForPage_Some [OF sectionsXhr_pageWorld] selectedIndexes_hamlet)

lemma randomSection_single: "randomSection 0 [s] = Some s"
  by (simp add: randomSection_def randomNum_0 js_nth_def)

lemma getQuotesForSection_hamlet:
  "getQuotesForSection (hamletWorld r) 42 (Some ''2'')
     = Fulfilled \<lparr>batchTitles = ''Hamlet'', quotes = [toBe]\<rparr>"
  unfolding hamletWorld_def
  by (simp add: getQuotesForSection_Some [OF textXhr_pageWorld] pageWorld_sel validTexts_hamlet)

lemma randomQuote_single:
  "randomQuote 0 \<lparr>batchTitles = t, quotes = [s]\<rparr> = JStr s"
  by (simp add: randomQuote_def randomNum_0 js_nth_def)

lemma chain_hamlet:
  "chain (hamletWorld 0) = Fulfilled \<lparr>title = ''Hamlet'', quote = JStr toBe\<rparr>"
proof -
  have "getRandomPage (hamletWorld 0) = Fulfilled 42"
    "getSectionsForPage (hamletWorld 0) 42
       = Fulfilled \<lparr>pageId = 42, titles = ''Hamlet'', sections = [''2'']\<rparr>"
    "randomForSection (hamletWorld 0) = 0" "randomForQuote (hamletWorld 0) = 0"
    by (simp_all add: hamletWorld_def getRandomPage_pageWorld getSectionsForPage_hamlet
        pageWorld_sel)
  then show ?thesis
    by (simp add: chain_def randomSection_single getQuotesForSection_hamlet chooseQuote_def
        randomQuote_single)
qed

lemma getRandomQuote_hamlet:
  "getRandomQuote (\<lambda>k. hamletWorld 0)
     = (Fulfilled \<lparr>title = ''Hamlet'', quote = JStr toBe\<rparr>, \<lparr>numRetry = 0, console = []\<rparr>)"
  unfolding getRandomQuote_def
  by (subst mainSequence_unfold) (simp add: chain_hamlet)


lemma trim_collapse_sixDigits: "trim (collapseSpaces sixDigits) = sixDigits"
  by code_simp

lemma chain_single:
  assumes "validTexts cfg (querySelectorAll doc) = [s]"
  shows "chain (pageWorld cfg hamletOutline doc 0)
           = Fulfilled \<lparr>title = ''Hamlet'', quote = JStr s\<rparr>"
proof -
  let ?w = "pageWorld cfg hamletOutline doc 0"
  have "getQuotesForSection ?w 42 (Some ''2'')
          = Fulfilled \<lparr>batchTitles = ''Hamlet'', quotes = [s]\<rparr>"
    by (simp add: getQuotesForSection_Some [OF textXhr_pageWorld] pageWorld_sel assms)
  then show ?thesis
    by (simp add: chain_def getRandomPage_pageWorld getSectionsForPage_hamlet pageWorld_sel
        randomSection_single chooseQuote_def randomQuote_single)
qed

lemma getRandomQuote_sixDigitsWorld:
  "getRandomQuote (\<lambda>k. sixDigitsWorld)
     = (Fulfilled \<lparr>title = ''Hamlet'', quote = JStr sixDigits\<rparr>, \<lparr>numRetry = 0, console = []\<rparr>)"
proof -
  have "validTexts limit03 (querySelectorAll (listDoc [sixDigits])) = [sixDigits]"
    by (simp add: validTexts_def querySelectorAll_listDoc plainQuote_text
        trim_collapse_sixDigits valid_sixDigits)
  then have "chain sixDigitsWorld = Fulfilled \<lparr>title = ''Hamlet'', quote = JStr sixDigits\<rparr>"
    unfolding sixDigitsWorld_def by (rule chain_single)
  then show ?thesis
    unfolding getRandomQuote_def by (subst mainSequence_unfold) simp
qed

lemma config_sixDigitsWorld: "config sixDigitsWorld = limit03"
  by (simp add: sixDigitsWorld_def pageWorld_sel)

lemma sixDigits_fraction_value: "digitFraction sixDigits = 3 / 10"
  by code_simp

text \<open>
  Claim C1, as stated, fails when the digit ratio is the exact fraction of digits. After
  \<open>setNumericLimit(0.3)\<close> the limit is the double nearest to three tenths, which is below
  three tenths. The one item of the section has twenty characters, six of them digits, so
  its fraction of digits is three tenths, above the limit; \<open>getRandomQuote\<close> is fulfilled
  with it in its first attempt.
\<close>

theorem accepted_exact_ratio_counterexample:
  "getRandomQuote (\<lambda>k. sixDigitsWorld)
     = (Fulfilled \<lparr>title = ''Hamlet'', quote = JStr sixDigits\<rparr>, \<lparr>numRetry = 0, console = []\<rparr>)
   \<and> config sixDigitsWorld = limit03
   \<and> numericLimit limit03 = 5404319552844595 / 2 ^ 54
   \<and> length sixDigits = 20 \<and> countDigits sixDigits = 6
   \<and> digitFraction sixDigits = 3 / 10
   \<and> \<not> digitFraction sixDigits \<le> numericLimit limit03"
  by (intro conjI getRandomQuote_sixDigitsWorld config_sixDigitsWorld limit03_value
      sixDigits_counts sixDigits_fraction_value sixDigits_fraction)

text \<open>
  Claim C1, amended. When \<open>getRandomQuote\<close> is fulfilled, the quote of its result is a string
  \<open>s\<close> with \<open>minLength \<le> length s \<le> maxLength\<close> whose digit ratio as the validator computes
  it, the fraction of digits rounded to a double, is at most \<open>numericLimit\<close>, for the
  configuration in effect in the attempt that produced it (the attempt numbered by the final
  \<open>numRetry\<close>). In random-wikiquote.js this needs the value of \<open>Math.random()\<close> used for the
  quote to be in \<open>[0, 1)\<close>, as \<open>Math.random()\<close> promises; in the earlier version
  \<open>checkQuote\<close> tests the chosen quote itself.
\<close>

theorem accepted_quote_within_thresholds:
  "(getRandomQuote env = (Fulfilled res, st)
      \<and> 0 \<le> randomForQuote (env (numRetry st)) \<and> randomForQuote (env (numRetry st)) < 1 \<longrightarrow>
      (\<exists>s. quote res = JStr s
         \<and> minLength (config (env (numRetry st))) \<le> int (length s)
         \<and> int (length s) \<le> maxLength (config (env (numRetry st)))
         \<and> js_le (digitRatio s) (numericLimit (config (env (numRetry st))))
         \<and> digitRatio s = Fin (roundDouble (digitFraction s))))
   \<and> (getRandomQuote_part001 env = (Fulfilled res, st) \<longrightarrow>
      (\<exists>s. quote res = JStr s
         \<and> minLength (config (env (numRetry st))) \<le> int (length s)
         \<and> int (length s) \<le> maxLength (config (env (numRetry st)))
         \<and> js_le (digitRatio s) (numericLimit (config (env (numRetry st))))
         \<and> digitRatio s = Fin (roundDouble (digitFraction s))))"
proof (intro conjI impI)
  assume a: "getRandomQuote env = (Fulfilled res, st)
      \<and> 0 \<le> randomForQuote (env (numRetry st)) \<and> randomForQuote (env (numRetry st)) < 1"
  then have "mainSequence RETRY_LIMIT chain env \<lparr>numRetry = 0, console = []\<rparr> = (Fulfilled res, st)"
    by (simp add: getRandomQuote_def)
  then have "chain (env (numRetry st)) = Fulfilled res"
    by (rule mainSequence_accept)
  then have "isQuoteValid (config (env (numRetry st))) (quote res)"
    using a by (intro chain_valid) simp_all
  then show "\<exists>s. quote res = JStr s
         \<and> minLength (config (env (numRetry st))) \<le> int (length s)
         \<and> int (length s) \<le> maxLength (config (env (numRetry st)))
         \<and> js_le (digitRatio s) (numericLimit (config (env (numRetry st))))
         \<and> digitRatio s = Fin (roundDouble (digitFraction s))"
    by (rule valid_thresholds)
next
  assume "getRandomQuote_part001 env = (Fulfilled res, st)"
  then have "mainSequence RETRY_LIMIT chain_part001 env \<lparr>numRetry = 0, console = []\<rparr>
               = (Fulfilled res, st)"
    by (simp add: getRandomQuote_part001_def)
  then have "chain_part001 (env (numRetry st)) = Fulfilled res"
    by (rule mainSequence_accept)
  then have "isQuoteValid (config (env (numRetry st))) (quote res)"
    unfolding chain_part001_Fulfilled by blast
  then show "\<exists>s. quote res = JStr s
         \<and> minLength (config (env (numRetry st))) \<le> int (length s)
         \<and> int (length s) \<le> maxLength (config (env (numRetry st)))
         \<and> js_le (digitRatio s) (numericLimit (config (env (numRetry st))))
         \<and> digitRatio s = Fin (roundDouble (digitFraction s))"
    by (rule valid_thresholds)
qed


lemma querySelectorAll_helloDoc: "querySelectorAll helloDoc = []"
  by (simp add: querySelectorAll_def helloDoc_def helloItem_def)

theorem extraction_prefilters_witness:
  "getQuotesForSection (hamletWorld 0) 42 (Some ''2'')
     = Fulfilled \<lparr>batchTitles = ''Hamlet'', quotes = [toBe]\<rparr>
   \<and> isQuoteValid (config (hamletWorld 0)) (JStr toBe)
   \<and> isQuoteValid (config (hamletWorld 0))
        (randomQuote 0 \<lparr>batchTitles = ''Hamlet'', quotes = [toBe]\<rparr>)
   \<and> ajaxGet (textXhr (pageWorld defaultConfig hamletOutline helloDoc 0) 42 (Some ''2''))
       = Fulfilled (Some \<lparr>textTitle = ''Hamlet'', textMarkup = helloDoc\<rparr>)
   \<and> querySelectorAll helloDoc = []
   \<and> getQuotesForSection (pageWorld defaultConfig hamletOutline helloDoc 0) 42 (Some ''2'')
       = Rejected (Message ''Section has no valid quote.'')"
proof -
  let ?b = "\<lparr>batchTitles = ''Hamlet'', quotes = [toBe]\<rparr>"
  let ?p = "\<lparr>textTitle = ''Hamlet'', textMarkup = helloDoc\<rparr>"
  let ?w = "pageWorld defaultConfig hamletOutline helloDoc 0"
  have a: "isQuoteValid (config (hamletWorld 0)) (JStr toBe)
           \<and> isQuoteValid (config (hamletWorld 0)) (randomQuote 0 ?b)"
    using extraction_prefilters [of "hamletWorld 0" 42 "Some ''2''" ?b 0, THEN conjunct1]
      getQuotesForSection_hamlet [of 0]
    by simp
  have b: "getQuotesForSection ?w 42 (Some ''2'') = Rejected (Message ''Section has no valid quote.'')"
    using extraction_prefilters [where w = ?w and pid = 42 and si = "Some ''2''" and p = ?p,
        THEN conjunct2]
      textXhr_pageWorld [of defaultConfig hamletOutline helloDoc 0 42 "Some ''2''"]
    by (simp add: querySelectorAll_helloDoc)
  show ?thesis
    using a b getQuotesForSection_hamlet [of 0] textXhr_pageWorld querySelectorAll_helloDoc
    by simp
qed

lemma outerText_items:
  "map (\<lambda>li. outerText (replaceUnwanted keep li)) (map (\<lambda>s. Element ''LI'' [Text s]) items)
     = items"
  by (induction items) (simp_all add: outerText_def elementPositions_def)

lemma getQuotesForSection_part001_hamlet:
  "getQuotesForSection_part001 (hamletWorld r) 42 (Some ''2'')
     = Fulfilled \<lparr>batchTitles = ''Hamlet'', quotes = hamletItems\<rparr>"
  unfolding hamletWorld_def
  by (simp only: getQuotesForSection_part001_Some [OF textXhr_pageWorld]
      querySelectorAll_listDoc outerText_items text_parse.simps)

lemma randomNum_half: "randomNum (1 / 2) (Suc (Suc 0)) = 1"
  by code_simp

lemma hamletWorld_stages:
  "getRandomPage (hamletWorld r) = Fulfilled 42"
  "getRandomPage_part001 (hamletWorld r) = Fulfilled 42"
  "getSectionsForPage (hamletWorld r) 42
     = Fulfilled \<lparr>pageId = 42, titles = ''Hamlet'', sections = [''2'']\<rparr>"
  "randomForSection (hamletWorld r) = 0" "randomForQuote (hamletWorld r) = r"
  "config (hamletWorld r) = defaultConfig"
  by (simp_all add: hamletWorld_def getRandomPage_pageWorld getRandomPage_part001_pageWorld
      getSectionsForPage_hamlet pageWorld_sel)

lemma chain_part001_hamlet_half:
  "chain_part001 (hamletWorld (1 / 2)) = Fulfilled \<lparr>title = ''Hamlet'', quote = JStr toBe\<rparr>"
  by (simp add: chain_part001_def hamletWorld_stages randomSection_single
      getQuotesForSection_part001_hamlet chooseQuote_def randomQuote_def randomNum_half
      js_nth_def hamletItems_def checkQuote_Fulfilled valid_toBe)

lemma chain_part001_hamlet_zero:
  "chain_part001 (hamletWorld 0) = Rejected (Message ''Quote is too short'')"
proof -
  have "checkQuote defaultConfig \<lparr>title = ''Hamlet'', quote = JStr (utf16 ''1997'')\<rparr>
          = Rejected (Message ''Quote is too short'')"
    by (simp add: checkQuote_def checkQuote_run_def utf16_def defaultConfig_def)
  then show ?thesis
    by (simp add: chain_part001_def hamletWorld_stages randomSection_single
      getQuotesForSection_part001_hamlet chooseQuote_def randomQuote_def randomNum_0
      js_nth_def hamletItems_def)
qed

lemma getRandomQuote_part001_hamlet_half:
  "getRandomQuote_part001 (\<lambda>k. hamletWorld (1 / 2))
     = (Fulfilled \<lparr>title = ''Hamlet'', quote = JStr toBe\<rparr>, \<lparr>numRetry = 0, console = []\<rparr>)"
  unfolding getRandomQuote_part001_def
  by (subst mainSequence_unfold) (simp add: chain_part001_hamlet_half)

lemma length_toBe: "length toBe = 41"
  by (simp add: toBe_def utf16_def)

theorem accepted_quote_within_thresholds_witness:
  "getRandomQuote (\<lambda>k. hamletWorld 0)
     = (Fulfilled \<lparr>title = ''Hamlet'', quote = JStr toBe\<rparr>, \<lparr>numRetry = 0, console = []\<rparr>)
   \<and> 0 \<le> randomForQuote (hamletWorld 0) \<and> randomForQuote (hamletWorld 0) < 1
   \<and> getRandomQuote_part001 (\<lambda>k. hamletWorld (1 / 2))
     = (Fulfilled \<lparr>title = ''Hamlet'', quote = JStr toBe\<rparr>, \<lparr>numRetry = 0, console = []\<rparr>)
   \<and> minLength defaultConfig \<le> int (length toBe) \<and> int (length toBe) \<le> maxLength defaultConfig
   \<and> js_le (digitRatio toBe) (numericLimit defaultConfig)
   \<and> digitRatio toBe = Fin (roundDouble (digitFraction toBe))
   \<and> length toBe = 41"
proof -
  let ?res = "\<lparr>title = ''Hamlet'', quote = JStr toBe\<rparr>"
  let ?st = "\<lparr>numRetry = 0, console = []\<rparr>"
  have "minLength defaultConfig \<le> int (length toBe) \<and> int (length toBe) \<le> maxLength defaultConfig
     \<and> js_le (digitRatio toBe) (numericLimit defaultConfig)
     \<and> digitRatio toBe = Fin (roundDouble (digitFraction toBe))"
    using accepted_quote_within_thresholds [of "\<lambda>k. hamletWorld 0" ?res ?st, THEN conjunct1]
      getRandomQuote_hamlet
    by (auto simp: hamletWorld_stages)
  moreover have "0 \<le> randomForQuote (hamletWorld 0) \<and> randomForQuote (hamletWorld 0) < 1"
    by (simp add: hamletWorld_stages)
  ultimately show ?thesis
    using getRandomQuote_hamlet getRandomQuote_part001_hamlet_half length_toBe
    by blast
qed

section \<open>What the item text is, empty batches, and the choice of one quote\<close>

lemma replaceChild_length: "length (replaceChild keep ns i) = length ns"
  by (simp add: replaceChild_def)

lemma replaceChild_nth:
  "j < length ns \<Longrightarrow>
   replaceChild keep ns i ! j =
     (if j = i \<and> tagName (ns ! i) \<notin> set keep then Text (utf16 '' '') else ns ! j)"
  by (simp add: replaceChild_def)

lemma foldl_replaceChild:
  assumes "distinct ps" and "\<forall>i \<in> set ps. i < length ns"
  shows "foldl (replaceChild keep) ns ps =
           map (\<lambda>i. if i \<in> set ps \<and> tagName (ns ! i) \<notin> set keep
                     then Text (utf16 '' '') else ns ! i) [0..<length ns]"
  using assms
proof (induction ps arbitrary: ns)
  case Nil
  then show ?case by (simp add: map_nth)
next
  case (Cons p ps)
  have "foldl (replaceChild keep) (replaceChild keep ns p) ps =
          map (\<lambda>i. if i \<in> set ps \<and> tagName (replaceChild keep ns p ! i) \<notin> set keep
                    then Text (utf16 '' '') else replaceChild keep ns p ! i)
              [0..<length (replaceChild keep ns p)]"
    using Cons.prems by (intro Cons.IH) (simp_all add: replaceChild_length)
  also have "\<dots> = map (\<lambda>i. if i \<in> set (p # ps) \<and> tagName (ns ! i) \<notin> set keep
                     then Text (utf16 '' '') else ns ! i) [0..<length ns]"
    using Cons.prems by (auto simp: replaceChild_length replaceChild_nth)
  finally show ?case by simp
qed

lemma replaceUnwanted_map:
  "replaceUnwanted keep (Element t cs) =
     Element t (map (\<lambda>c. if isElement c \<and> tagName c \<notin> set keep
                          then Text (utf16 '' '') else c) cs)"
proof -
  have "foldl (replaceChild keep) cs (elementPositions cs) =
          map (\<lambda>i. if i \<in> set (elementPositions cs) \<and> tagName (cs ! i) \<notin> set keep
                    then Text (utf16 '' '') else cs ! i) [0..<length cs]"
    by (intro foldl_replaceChild) (simp_all add: elementPositions_def)
  also have "\<dots> = map (\<lambda>i. (\<lambda>c. if isElement c \<and> tagName c \<notin> set keep
                          then Text (utf16 '' '') else c) (cs ! i)) [0..<length cs]"
    by (simp add: elementPositions_def)
  also have "\<dots> = map (\<lambda>c. if isElement c \<and> tagName c \<notin> set keep
                          then Text (utf16 '' '') else c) cs"
    by (rule nth_equalityI) simp_all
  finally show ?thesis by simp
qed

lemma isSpace_space: "isSpace 0x20"
  by (simp add: isSpace_def)

lemma collapseSpaces_hd:
  "s \<noteq> [] \<Longrightarrow> \<not> isSpace (hd s) \<Longrightarrow> collapseSpaces s \<noteq> [] \<and> hd (collapseSpaces s) = hd s"
  by (induction s rule: collapseSpaces.induct) auto

lemma collapseSpaces_Nil: "collapseSpaces s = [] \<longleftrightarrow> s = []"
  by (induction s rule: collapseSpaces.induct) auto

lemma collapseSpaces_no_adjacent: "\<not> adjacentSpaces (collapseSpaces s)"
proof (induction s rule: collapseSpaces.induct)
  case (3 c d cs)
  show ?case
  proof (cases "isSpace c \<and> isSpace d")
    case True
    let ?r = "dropWhile isSpace cs"
    have ih: "\<not> adjacentSpaces (collapseSpaces ?r)" using 3(1) True by simp
    show ?thesis
    proof (cases "?r = []")
      case True
      then have "collapseSpaces ?r = []" by (simp only: collapseSpaces.simps)
      then have "collapseSpaces (c # d # cs) = [0x20]"
        using \<open>isSpace c \<and> isSpace d\<close> by simp
      then show ?thesis by (simp only: adjacentSpaces.simps not_False_eq_True)
    next
      case False
      then have "\<not> isSpace (hd ?r)" by (simp add: hd_dropWhile)
      with False have h: "collapseSpaces ?r \<noteq> []" "\<not> isSpace (hd (collapseSpaces ?r))"
        using collapseSpaces_hd [of ?r] by simp_all
      then obtain x xs where x: "collapseSpaces ?r = x # xs" by (cases "collapseSpaces ?r") auto
      with h ih \<open>isSpace c \<and> isSpace d\<close> show ?thesis by simp
    qed
  next
    case False
    have ih: "\<not> adjacentSpaces (collapseSpaces (d # cs))" using 3(2) False by simp
    obtain x xs where x: "collapseSpaces (d # cs) = x # xs"
      using collapseSpaces_Nil [of "d # cs"] by (cases "collapseSpaces (d # cs)") simp_all
    have "isSpace c \<Longrightarrow> \<not> isSpace x"
      using False collapseSpaces_hd [of "d # cs"] x by auto
    with False ih x show ?thesis by auto
  qed
qed simp_all

lemma collapseSpaces_fixed: "\<not> adjacentSpaces s \<Longrightarrow> collapseSpaces s = s"
  by (induction s rule: collapseSpaces.induct) auto

lemma filter_dropWhile_not: "filter (\<lambda>c. \<not> P c) (dropWhile P xs) = filter (\<lambda>c. \<not> P c) xs"
  by (induction xs) auto

lemma collapseSpaces_keeps:
  "filter (\<lambda>c. \<not> isSpace c) (collapseSpaces s) = filter (\<lambda>c. \<not> isSpace c) s"
  by (induction s rule: collapseSpaces.induct)
     (auto simp: isSpace_space filter_dropWhile_not)

lemma trim_keeps: "filter (\<lambda>c. \<not> isSpace c) (trim s) = filter (\<lambda>c. \<not> isSpace c) s"
proof -
  have "filter (\<lambda>c. \<not> isSpace c) (trim s)
          = rev (filter (\<lambda>c. \<not> isSpace c) (dropWhile isSpace (rev (dropWhile isSpace s))))"
    by (simp add: trim_def rev_filter)
  also have "\<dots> = filter (\<lambda>c. \<not> isSpace c) (dropWhile isSpace s)"
    by (simp add: filter_dropWhile_not rev_filter [symmetric])
  finally show ?thesis by (simp add: filter_dropWhile_not)
qed

lemma trim_factor: "\<exists>pre post. s = pre @ trim s @ post"
proof -
  let ?t = "dropWhile isSpace s"
  have "rev ?t = takeWhile isSpace (rev ?t) @ dropWhile isSpace (rev ?t)" by simp
  then have "?t = trim s @ rev (takeWhile isSpace (rev ?t))"
    unfolding trim_def by (metis rev_append rev_rev_ident)
  moreover have "s = takeWhile isSpace s @ ?t" by simp
  ultimately show ?thesis by metis
qed

lemma adjacentSpaces_append_right: "adjacentSpaces ys \<Longrightarrow> adjacentSpaces (xs @ ys)"
proof (induction xs)
  case (Cons x xs)
  then show ?case by (cases "xs @ ys") auto
qed simp

lemma adjacentSpaces_append_left: "adjacentSpaces xs \<Longrightarrow> adjacentSpaces (xs @ ys)"
  by (induction xs rule: adjacentSpaces.induct) auto

lemma trim_no_adjacent: "\<not> adjacentSpaces s \<Longrightarrow> \<not> adjacentSpaces (trim s)"
proof -
  assume a: "\<not> adjacentSpaces s"
  obtain pre post where "s = pre @ trim s @ post" using trim_factor by blast
  then show ?thesis
    using a adjacentSpaces_append_right [of "trim s @ post" pre]
      adjacentSpaces_append_left [of "trim s" post] by metis
qed

lemma trim_ends:
  assumes "trim s \<noteq> []"
  shows "\<not> isSpace (hd (trim s)) \<and> \<not> isSpace (last (trim s))"
proof -
  let ?t = "dropWhile isSpace s"
  let ?u = "dropWhile isSpace (rev ?t)"
  have u: "?u \<noteq> []" using assms by (simp add: trim_def)
  then have "\<not> isSpace (hd ?u)" by (rule hd_dropWhile)
  then have l: "\<not> isSpace (last (trim s))"
    using u by (simp add: trim_def last_rev)
  have t: "?t \<noteq> []"
  proof
    assume "?t = []"
    then have "?u = []" by (simp only: rev.simps dropWhile.simps)
    with u show False by simp
  qed
  then have ht: "\<not> isSpace (hd ?t)" by (rule hd_dropWhile)
  have "rev ?t = takeWhile isSpace (rev ?t) @ ?u" by simp
  then have "?t = trim s @ rev (takeWhile isSpace (rev ?t))"
    unfolding trim_def by (metis rev_append rev_rev_ident)
  then have "hd ?t = hd (trim s)" using assms by (metis hd_append2)
  with ht l show ?thesis by simp
qed


lemma last_dropWhile: "dropWhile P xs \<noteq> [] \<Longrightarrow> last (dropWhile P xs) = last xs"
  by (induction xs) (auto split: if_splits)

lemma collapseSpaces_append:
  "pre = [] \<or> \<not> isSpace (last pre) \<Longrightarrow>
   collapseSpaces (pre @ ys) = collapseSpaces pre @ collapseSpaces ys"
proof (induction pre rule: collapseSpaces.induct)
  case 1
  show ?case by simp
next
  case (2 c)
  then have "\<not> isSpace c" by simp
  then show ?case by (cases ys) simp_all
next
  case (3 c d cs)
  have l: "\<not> isSpace (last (d # cs))" using 3(3) by simp
  show ?case
  proof (cases "isSpace c \<and> isSpace d")
    case True
    then have cs: "cs \<noteq> []" using l by auto
    then have "\<not> isSpace (last cs)" using l by simp
    then have ex: "last cs \<in> set cs \<and> \<not> isSpace (last cs)" using cs by simp
    then have dw: "dropWhile isSpace (cs @ ys) = dropWhile isSpace cs @ ys"
      using dropWhile_append1 [of "last cs" cs isSpace ys] by blast
    have ne: "dropWhile isSpace cs \<noteq> []"
    proof
      assume "dropWhile isSpace cs = []"
      then have "\<forall>x \<in> set cs. isSpace x" by (simp only: dropWhile_eq_Nil_conv)
      with ex show False by blast
    qed
    have "\<not> isSpace (last (dropWhile isSpace cs))"
      using last_dropWhile [OF ne] ex by simp
    then have "collapseSpaces (dropWhile isSpace cs @ ys)
                 = collapseSpaces (dropWhile isSpace cs) @ collapseSpaces ys"
      using 3(1) True by blast
    then show ?thesis using True dw by simp
  next
    case False
    have "collapseSpaces ((d # cs) @ ys) = collapseSpaces (d # cs) @ collapseSpaces ys"
      using 3(2) False l by blast
    then show ?thesis using False by auto
  qed
qed

lemma collapseSpaces_head_run:
  assumes "\<forall>c \<in> set ws. isSpace c" and "2 \<le> length ws"
    and "post = [] \<or> \<not> isSpace (hd post)"
  shows "collapseSpaces (ws @ post) = 0x20 # collapseSpaces post"
proof -
  obtain c d ws' where ws: "ws = c # d # ws'"
    using assms(2) by (cases ws; cases "tl ws") auto
  have "dropWhile isSpace (ws' @ post) = dropWhile isSpace post"
    using assms(1) ws by (intro dropWhile_append2) simp
  also have "\<dots> = post" using assms(3) by (cases post) auto
  finally show ?thesis using ws assms(1) by simp
qed

lemma collapseSpaces_head_lone:
  "post = [] \<or> \<not> isSpace (hd post) \<Longrightarrow> collapseSpaces (c # post) = c # collapseSpaces post"
  by (cases post) auto

lemma collapseSpaces_head_other: "\<not> isSpace c \<Longrightarrow> collapseSpaces (c # s) = c # collapseSpaces s"
  by (cases s) auto

lemma collapseSpaces_run:
  assumes "\<forall>c \<in> set ws. isSpace c" and "2 \<le> length ws"
    and "pre = [] \<or> \<not> isSpace (last pre)" and "post = [] \<or> \<not> isSpace (hd post)"
  shows "collapseSpaces (pre @ ws @ post) = collapseSpaces pre @ [0x20] @ collapseSpaces post"
  using collapseSpaces_append [OF assms(3), of "ws @ post"]
    collapseSpaces_head_run [OF assms(1,2,4)]
  by simp

lemma collapseSpaces_lone:
  assumes "pre = [] \<or> \<not> isSpace (last pre)" and "post = [] \<or> \<not> isSpace (hd post)"
  shows "collapseSpaces (pre @ [c] @ post) = collapseSpaces pre @ [c] @ collapseSpaces post"
  using collapseSpaces_append [OF assms(1), of "c # post"]
    collapseSpaces_head_lone [OF assms(2), of c]
  by simp

lemma trim_factor_spaces:
  "\<exists>a b. s = a @ trim s @ b \<and> (\<forall>c \<in> set a. isSpace c) \<and> (\<forall>c \<in> set b. isSpace c)"
proof -
  let ?t = "dropWhile isSpace s"
  let ?b = "rev (takeWhile isSpace (rev ?t))"
  have "rev ?t = takeWhile isSpace (rev ?t) @ dropWhile isSpace (rev ?t)" by simp
  then have "?t = trim s @ ?b"
    unfolding trim_def by (metis rev_append rev_rev_ident)
  moreover have "s = takeWhile isSpace s @ ?t" by simp
  ultimately have "s = takeWhile isSpace s @ trim s @ ?b" by metis
  moreover have "\<forall>c \<in> set (takeWhile isSpace s). isSpace c"
    by (auto dest: set_takeWhileD)
  moreover have "\<forall>c \<in> set ?b. isSpace c"
    by (auto dest: set_takeWhileD)
  ultimately show ?thesis by blast
qed

lemma innerText_spanItem:
  "innerText (replaceUnwanted ELEMENTS_TO_KEEP spanItem) = utf16 ''one   two''"
  by code_simp

lemma spanItem_parts:
  "utf16 ''one'' @ [0x20, 0x20, 0x20] @ utf16 ''two'' = utf16 ''one   two''"
  "utf16 ''one'' @ [0x20] @ utf16 ''two'' = utf16 ''one two''"
  "\<not> adjacentSpaces (utf16 ''one'')" "\<not> adjacentSpaces (utf16 ''two'')"
  "\<not> isSpace (last (utf16 ''one''))" "\<not> isSpace (hd (utf16 ''two''))"
  "trim (utf16 ''one two'') = utf16 ''one two''"
  "utf16 ''one two'' \<noteq> []"
  "\<not> isSpace (hd (utf16 ''one two''))" "\<not> isSpace (last (utf16 ''one two''))"
  by code_simp+

lemma querySelectorAll_helloDivDoc: "querySelectorAll helloDivDoc = [helloItem]"
  by (simp add: querySelectorAll_def helloDivDoc_def helloItem_def)

lemma plainQuote_helloItem: "plainQuote helloItem = utf16 ''Hello world [1]''"
  by code_simp

lemma plainQuote_helloItem_neq: "plainQuote helloItem \<noteq> utf16 ''Hello world''"
  by code_simp

lemma outerText_helloItem:
  "outerText (replaceUnwanted childrenToKeep helloItem) = utf16 ''Hello world [1] ''"
  by code_simp

lemma invalid_hello: "\<not> isQuoteValid defaultConfig (JStr (utf16 ''Hello world [1]''))"
  by code_simp

lemma valid_hello15: "isQuoteValid (setMinLength 15 defaultConfig) (JStr (utf16 ''Hello world [1]''))"
  by code_simp

lemma collapse_single_tab: "collapseSpaces [0x61, 0x09, 0x62] = [0x61, 0x09, 0x62]"
  by (simp add: isSpace_def)

lemma getQuotesForSection_helloDoc:
  "getQuotesForSection (pageWorld cfg secs helloDoc r) pid si
     = Rejected (Message ''Section has no valid quote.'')"
  by (simp add: getQuotesForSection_Some [OF textXhr_pageWorld] querySelectorAll_helloDoc
      validTexts_def)

lemma getQuotesForSection_helloDivDoc:
  "getQuotesForSection (pageWorld defaultConfig secs helloDivDoc r) pid si
     = Rejected (Message ''Section has no valid quote.'')"
  by (simp add: getQuotesForSection_Some [OF textXhr_pageWorld] querySelectorAll_helloDivDoc
      validTexts_def plainQuote_helloItem invalid_hello pageWorld_sel)

lemma getQuotesForSection_part001_helloDivDoc:
  "getQuotesForSection_part001 (pageWorld cfg secs helloDivDoc r) pid si
     = Fulfilled \<lparr>batchTitles = ''Hamlet'', quotes = [utf16 ''Hello world [1] '']\<rparr>"
  by (simp add: getQuotesForSection_part001_Some [OF textXhr_pageWorld]
      querySelectorAll_helloDivDoc outerText_helloItem)

text \<open>
  Claim C4, as stated, fails on the example. The parser puts the markup
  \<open><ul><li>Hello <b>world</b> <sup>[1]</sup><ul><li>note</li></ul></li></ul>\<close> under
  \<open><body>\<close>, where \<open>'div > ul > li'\<close> selects nothing, so \<open>getQuotesForSection\<close> rejects.
  With the list inside a \<open><div>\<close>, the one selected item has the text \<open>Hello world [1]\<close>,
  not \<open>Hello world\<close>, since \<open>SUP\<close> is one of \<open>ELEMENTS_TO_KEEP\<close>; under the default
  configuration that text is too short and the call rejects again, and the earlier version
  returns \<open>Hello world [1]\<close> followed by a space. A single white-space character that is not a
  space, here a tab between two letters, is left as it is.
\<close>

theorem hello_example_counterexample:
  "querySelectorAll helloDoc = []
   \<and> getQuotesForSection (pageWorld defaultConfig hamletOutline helloDoc 0) 42 (Some ''2'')
       = Rejected (Message ''Section has no valid quote.'')
   \<and> querySelectorAll helloDivDoc = [helloItem]
   \<and> plainQuote helloItem = utf16 ''Hello world [1]''
   \<and> plainQuote helloItem \<noteq> utf16 ''Hello world''
   \<and> getQuotesForSection (pageWorld defaultConfig hamletOutline helloDivDoc 0) 42 (Some ''2'')
       = Rejected (Message ''Section has no valid quote.'')
   \<and> getQuotesForSection_part001 (pageWorld defaultConfig hamletOutline helloDivDoc 0) 42
        (Some ''2'')
       = Fulfilled \<lparr>batchTitles = ''Hamlet'', quotes = [utf16 ''Hello world [1] '']\<rparr>
   \<and> collapseSpaces [0x61, 0x09, 0x62] = [0x61, 0x09, 0x62]"
  by (intro conjI querySelectorAll_helloDoc getQuotesForSection_helloDoc
      querySelectorAll_helloDivDoc plainQuote_helloItem_neq getQuotesForSection_helloDivDoc
      getQuotesForSection_part001_helloDivDoc collapse_single_tab plainQuote_helloItem)

text \<open>
  Claim C4, amended. In every item, each child element whose tag is not kept is replaced by a
  text node holding one space, and the others are left alone. The text of the item is the text
  content after the replacement, with its runs of white space replaced and then trimmed.
  The replacement of runs puts one space for each run of two or more white-space characters
  that lies between characters that are not white space (or at an end of the string), keeps
  a white-space character that stands alone, and keeps every other character; a string with
  no two adjacent white-space characters is not changed by it. Trimming removes a prefix and
  a suffix of white space, and what is left does not start or end with white space. So the
  text of the item has no two adjacent white-space characters and no white space at either
  end, and its other characters are those of the text content after the replacement, in
  order. When the section renders and some text is valid, \<open>getQuotesForSection\<close> is
  fulfilled with the valid texts. For the example inside a \<open><div>\<close>, the one item selected
  has the text \<open>Hello world [1]\<close>; without the \<open><div>\<close> no item is selected.
\<close>

theorem item_text_extraction:
  "replaceUnwanted keep (Element t cs) =
     Element t (map (\<lambda>c. if isElement c \<and> tagName c \<notin> set keep
                          then Text (utf16 '' '') else c) cs)
   \<and> plainQuote li = trim (collapseSpaces (innerText (replaceUnwanted ELEMENTS_TO_KEEP li)))
   \<and> ((\<forall>c \<in> set ws. isSpace c) \<and> 2 \<le> length ws
        \<and> (pre = [] \<or> \<not> isSpace (last pre)) \<and> (post = [] \<or> \<not> isSpace (hd post)) \<longrightarrow>
        collapseSpaces (pre @ ws @ post) = collapseSpaces pre @ [0x20] @ collapseSpaces post)
   \<and> ((pre = [] \<or> \<not> isSpace (last pre)) \<and> (post = [] \<or> \<not> isSpace (hd post)) \<longrightarrow>
        collapseSpaces (pre @ [x] @ post) = collapseSpaces pre @ [x] @ collapseSpaces post)
   \<and> (\<not> isSpace x \<longrightarrow> collapseSpaces (x # s) = x # collapseSpaces s)
   \<and> (\<not> adjacentSpaces s \<longrightarrow> collapseSpaces s = s)
   \<and> (\<exists>a b. s = a @ trim s @ b \<and> (\<forall>c \<in> set a. isSpace c) \<and> (\<forall>c \<in> set b. isSpace c))
   \<and> (trim s \<noteq> [] \<longrightarrow> \<not> isSpace (hd (trim s)) \<and> \<not> isSpace (last (trim s)))
   \<and> \<not> adjacentSpaces (plainQuote li)
   \<and> (plainQuote li \<noteq> [] \<longrightarrow>
        \<not> isSpace (hd (plainQuote li)) \<and> \<not> isSpace (last (plainQuote li)))
   \<and> filter (\<lambda>c. \<not> isSpace c) (plainQuote li)
       = filter (\<lambda>c. \<not> isSpace c) (innerText (replaceUnwanted ELEMENTS_TO_KEEP li))
   \<and> (ajaxGet (textXhr w pid si) = Fulfilled (Some p)
        \<and> filter (\<lambda>q. isQuoteValid (config w) (JStr q))
             (map plainQuote (querySelectorAll (textMarkup p))) \<noteq> [] \<longrightarrow>
        getQuotesForSection w pid si =
          Fulfilled \<lparr>batchTitles = textTitle p,
            quotes = filter (\<lambda>q. isQuoteValid (config w) (JStr q))
                       (map plainQuote (querySelectorAll (textMarkup p)))\<rparr>)
   \<and> querySelectorAll helloDoc = []
   \<and> querySelectorAll helloDivDoc = [helloItem]
   \<and> plainQuote helloItem = utf16 ''Hello world [1]''"
proof (intro conjI impI)
  show "replaceUnwanted keep (Element t cs) =
     Element t (map (\<lambda>c. if isElement c \<and> tagName c \<notin> set keep
                          then Text (utf16 '' '') else c) cs)"
    by (rule replaceUnwanted_map)
  show "plainQuote li = trim (collapseSpaces (innerText (replaceUnwanted ELEMENTS_TO_KEEP li)))"
    by (rule plainQuote_def)
  show "collapseSpaces (pre @ ws @ post) = collapseSpaces pre @ [0x20] @ collapseSpaces post"
    if "(\<forall>c \<in> set ws. isSpace c) \<and> 2 \<le> length ws
        \<and> (pre = [] \<or> \<not> isSpace (last pre)) \<and> (post = [] \<or> \<not> isSpace (hd post))"
    using that by (intro collapseSpaces_run) blast+
  show "collapseSpaces (pre @ [x] @ post) = collapseSpaces pre @ [x] @ collapseSpaces post"
    if "(pre = [] \<or> \<not> isSpace (last pre)) \<and> (post = [] \<or> \<not> isSpace (hd post))"
    using that by (intro collapseSpaces_lone) blast+
  show "collapseSpaces (x # s) = x # collapseSpaces s" if "\<not> isSpace x"
    using that by (rule collapseSpaces_head_other)
  show "collapseSpaces s = s" if "\<not> adjacentSpaces s"
    using that by (rule collapseSpaces_fixed)
  show "\<exists>a b. s = a @ trim s @ b \<and> (\<forall>c \<in> set a. isSpace c) \<and> (\<forall>c \<in> set b. isSpace c)"
    by (rule trim_factor_spaces)
  show "\<not> isSpace (hd (trim s))" "\<not> isSpace (last (trim s))" if "trim s \<noteq> []"
    using trim_ends [OF that] by blast+
  show "\<not> adjacentSpaces (plainQuote li)"
    unfolding plainQuote_def by (intro trim_no_adjacent collapseSpaces_no_adjacent)
  show "\<not> isSpace (hd (plainQuote li))" "\<not> isSpace (last (plainQuote li))"
    if "plainQuote li \<noteq> []"
    using that trim_ends unfolding plainQuote_def by blast+
  show "filter (\<lambda>c. \<not> isSpace c) (plainQuote li)
       = filter (\<lambda>c. \<not> isSpace c) (innerText (replaceUnwanted ELEMENTS_TO_KEEP li))"
    unfolding plainQuote_def by (simp only: trim_keeps collapseSpaces_keeps)
  show "getQuotesForSection w pid si =
          Fulfilled \<lparr>batchTitles = textTitle p,
            quotes = filter (\<lambda>q. isQuoteValid (config w) (JStr q))
                       (map plainQuote (querySelectorAll (textMarkup p)))\<rparr>"
    if "ajaxGet (textXhr w pid si) = Fulfilled (Some p)
        \<and> filter (\<lambda>q. isQuoteValid (config w) (JStr q))
             (map plainQuote (querySelectorAll (textMarkup p))) \<noteq> []"
    using that getQuotesForSection_Some [of w pid si p] by (simp add: validTexts_def)
  show "querySelectorAll helloDoc = []"
    by (rule querySelectorAll_helloDoc)
  show "querySelectorAll helloDivDoc = [helloItem]"
    by (rule querySelectorAll_helloDivDoc)
  show "plainQuote helloItem = utf16 ''Hello world [1]''"
    by (rule plainQuote_helloItem)
qed

theorem item_text_extraction_witness:
  "innerText (replaceUnwanted ELEMENTS_TO_KEEP spanItem) = utf16 ''one   two''
   \<and> collapseSpaces (utf16 ''one   two'') = utf16 ''one two''
   \<and> plainQuote spanItem = utf16 ''one two''
   \<and> \<not> isSpace (hd (plainQuote spanItem)) \<and> \<not> isSpace (last (plainQuote spanItem))
   \<and> collapseSpaces [0x61, 0x09, 0x62, 0x20, 0x20, 0x63] = [0x61, 0x09, 0x62, 0x20, 0x63]
   \<and> \<not> adjacentSpaces [0x61, 0x09, 0x62] \<and> collapseSpaces [0x61, 0x09, 0x62] = [0x61, 0x09, 0x62]
   \<and> trim [0x20, 0x61, 0x09] = [0x61]
   \<and> \<not> isSpace (hd (trim [0x20, 0x61, 0x09]))
   \<and> plainQuote helloItem \<noteq> []
   \<and> \<not> isSpace (hd (plainQuote helloItem)) \<and> \<not> isSpace (last (plainQuote helloItem))
   \<and> \<not> adjacentSpaces (plainQuote helloItem)
   \<and> ajaxGet (textXhr (pageWorld (setMinLength 15 defaultConfig) hamletOutline helloDivDoc 0)
         42 (Some ''2''))
       = Fulfilled (Some \<lparr>textTitle = ''Hamlet'', textMarkup = helloDivDoc\<rparr>)
   \<and> getQuotesForSection (pageWorld (setMinLength 15 defaultConfig) hamletOutline helloDivDoc 0)
         42 (Some ''2'')
       = Fulfilled \<lparr>batchTitles = ''Hamlet'', quotes = [utf16 ''Hello world [1]'']\<rparr>"
proof -
  let ?w = "pageWorld (setMinLength 15 defaultConfig) hamletOutline helloDivDoc 0"
  let ?p = "\<lparr>textTitle = ''Hamlet'', textMarkup = helloDivDoc\<rparr>"
  let ?tab = "[0x61, 0x09, 0x62] :: jsstring"
  note c2 = conjunct2
  note h = item_text_extraction [where li = helloItem and w = ?w and pid = 42
      and si = "Some ''2''" and p = ?p, THEN c2, THEN c2, THEN c2, THEN c2, THEN c2, THEN c2,
      THEN c2, THEN c2]
  note adj = h [THEN conjunct1]
  note ends = h [THEN c2, THEN conjunct1, THEN mp]
  note ex = h [THEN c2, THEN c2, THEN c2, THEN conjunct1, THEN mp]
  note sp = item_text_extraction [where li = spanItem, THEN c2]
  note pq = sp [THEN conjunct1]
  note sp_ends = sp [THEN c2, THEN c2, THEN c2, THEN c2, THEN c2, THEN c2, THEN c2, THEN c2,
      THEN conjunct1, THEN mp]
  note run = item_text_extraction [where pre = "utf16 ''one''" and ws = "[0x20, 0x20, 0x20]"
      and post = "utf16 ''two''", THEN c2, THEN c2, THEN conjunct1, THEN mp]
  note run2 = item_text_extraction [where pre = ?tab and ws = "[0x20, 0x20]"
      and post = "[0x63]", THEN c2, THEN c2, THEN conjunct1, THEN mp]
  note lone = item_text_extraction [where pre = "[0x61]" and x = "0x09" and post = "[0x62]",
      THEN c2, THEN c2, THEN c2, THEN conjunct1, THEN mp]
  note other = item_text_extraction [where x = "0x63" and s = "[]",
      THEN c2, THEN c2, THEN c2, THEN c2, THEN conjunct1, THEN mp]
  note fixed1 = item_text_extraction [where s = "utf16 ''one''",
      THEN c2, THEN c2, THEN c2, THEN c2, THEN c2, THEN conjunct1, THEN mp]
  note fixed2 = item_text_extraction [where s = "utf16 ''two''",
      THEN c2, THEN c2, THEN c2, THEN c2, THEN c2, THEN conjunct1, THEN mp]
  note tr_ends = item_text_extraction [where s = "[0x20, 0x61, 0x09]",
      THEN c2, THEN c2, THEN c2, THEN c2, THEN c2, THEN c2, THEN c2, THEN conjunct1, THEN mp]
  have sx: "isSpace 0x20" "isSpace 0x09" "\<not> isSpace 0x61" "\<not> isSpace 0x62" "\<not> isSpace 0x63"
    by (simp_all add: isSpace_def)
  have "collapseSpaces (utf16 ''one'' @ [0x20, 0x20, 0x20] @ utf16 ''two'')
          = collapseSpaces (utf16 ''one'') @ [0x20] @ collapseSpaces (utf16 ''two'')"
    by (rule run) (simp add: sx spanItem_parts(5,6))
  then have one: "collapseSpaces (utf16 ''one   two'') = utf16 ''one two''"
    by (simp only: spanItem_parts(1,2) fixed1 [OF spanItem_parts(3)]
        fixed2 [OF spanItem_parts(4)])
  have span: "plainQuote spanItem = utf16 ''one two''"
    using pq by (simp add: innerText_spanItem one spanItem_parts(7))
  have span_ends: "\<not> isSpace (hd (plainQuote spanItem)) \<and> \<not> isSpace (last (plainQuote spanItem))"
    using sp_ends by (simp add: span spanItem_parts(8))
  have c63: "collapseSpaces [0x63] = [0x63]"
    using other sx(5) by simp
  have tab: "collapseSpaces ?tab = ?tab"
    using lone sx by simp
  have tabn: "\<not> adjacentSpaces ?tab"
    using sx by simp
  have two: "collapseSpaces [0x61, 0x09, 0x62, 0x20, 0x20, 0x63] = [0x61, 0x09, 0x62, 0x20, 0x63]"
    using run2 sx by (simp add: tab c63)
  have tr: "trim [0x20, 0x61, 0x09] = [0x61]"
    using sx by (simp add: trim_def)
  have ne: "plainQuote helloItem \<noteq> []"
    by (simp add: plainQuote_helloItem utf16_def)
  have v: "filter (\<lambda>q. isQuoteValid (config ?w) (JStr q))
             (map plainQuote (querySelectorAll (textMarkup ?p))) = [utf16 ''Hello world [1]'']"
    by (simp add: querySelectorAll_helloDivDoc plainQuote_helloItem pageWorld_sel valid_hello15)
  have x: "ajaxGet (textXhr ?w 42 (Some ''2'')) = Fulfilled (Some ?p)"
    by (rule textXhr_pageWorld)
  have g: "getQuotesForSection ?w 42 (Some ''2'')
       = Fulfilled \<lparr>batchTitles = ''Hamlet'', quotes = [utf16 ''Hello world [1]'']\<rparr>"
    using ex x v by simp
  have te: "\<not> isSpace (hd (trim [0x20, 0x61, 0x09]))"
    using tr_ends by (simp add: tr)
  show ?thesis
    using innerText_spanItem one span span_ends two tabn tab tr te ne ends [OF ne] adj x g
    by blast
qed


text \<open>
  Claim C5, as stated, fails for random-wikiquote.js: for a section that renders but has no
  list item under \<open>div > ul\<close>, \<open>getQuotesForSection\<close> rejects with
  \<open>Section has no valid quote.\<close> instead of succeeding with an empty list.
\<close>

theorem empty_batch_counterexample:
  "ajaxGet (textXhr (pageWorld defaultConfig hamletOutline helloDoc 0) 42 (Some ''2''))
     = Fulfilled (Some \<lparr>textTitle = ''Hamlet'', textMarkup = helloDoc\<rparr>)
   \<and> querySelectorAll helloDoc = []
   \<and> getQuotesForSection (pageWorld defaultConfig hamletOutline helloDoc 0) 42 (Some ''2'')
       = Rejected (Message ''Section has no valid quote.'')"
  by (intro conjI textXhr_pageWorld querySelectorAll_helloDoc getQuotesForSection_helloDoc)

lemma checkQuote_undefined:
  "checkQuote cfg \<lparr>title = t, quote = JUndefined\<rparr> = Rejected (Message ''No quote found'')"
  by (simp add: checkQuote_def checkQuote_run_def)

lemma chooseQuote_empty:
  "chooseQuote r \<lparr>batchTitles = t, quotes = []\<rparr> = \<lparr>title = t, quote = JUndefined\<rparr>"
  by (simp add: chooseQuote_def randomQuote_def js_nth_def)

text \<open>
  Claim C5, amended. For a section that renders, \<open>getQuotesForSection\<close> of the earlier
  version is always fulfilled, with one text per selected item; with no item the list is
  empty and it is \<open>checkQuote\<close>, downstream, that rejects the quote \<open>undefined\<close> chosen from
  it with \<open>No quote found\<close>. In random-wikiquote.js, \<open>getQuotesForSection\<close> itself rejects
  with \<open>Section has no valid quote.\<close> exactly when no item has a valid text, and is
  fulfilled exactly when some item has.
\<close>

theorem empty_batch_outcome:
  "ajaxGet (textXhr w pid si) = Fulfilled (Some p) \<longrightarrow>
     getQuotesForSection_part001 w pid si =
       Fulfilled \<lparr>batchTitles = textTitle p,
         quotes = map (\<lambda>li. outerText (replaceUnwanted childrenToKeep li))
                    (querySelectorAll (textMarkup p))\<rparr>
     \<and> (querySelectorAll (textMarkup p) = [] \<longrightarrow>
          getQuotesForSection_part001 w pid si
            = Fulfilled \<lparr>batchTitles = textTitle p, quotes = []\<rparr>
          \<and> checkQuote cfg (chooseQuote r \<lparr>batchTitles = textTitle p, quotes = []\<rparr>)
            = Rejected (Message ''No quote found''))
     \<and> (getQuotesForSection w pid si = Rejected (Message ''Section has no valid quote.'')
          \<longleftrightarrow> validTexts (config w) (querySelectorAll (textMarkup p)) = [])
     \<and> ((\<exists>b. getQuotesForSection w pid si = Fulfilled b)
          \<longleftrightarrow> validTexts (config w) (querySelectorAll (textMarkup p)) \<noteq> [])"
proof
  assume a: "ajaxGet (textXhr w pid si) = Fulfilled (Some p)"
  note p1 = getQuotesForSection_part001_Some [OF a]
  note p0 = getQuotesForSection_Some [OF a]
  have "querySelectorAll (textMarkup p) = [] \<longrightarrow>
          getQuotesForSection_part001 w pid si
            = Fulfilled \<lparr>batchTitles = textTitle p, quotes = []\<rparr>
          \<and> checkQuote cfg (chooseQuote r \<lparr>batchTitles = textTitle p, quotes = []\<rparr>)
            = Rejected (Message ''No quote found'')"
    using p1 by (simp add: chooseQuote_empty checkQuote_undefined)
  moreover have "getQuotesForSection w pid si = Rejected (Message ''Section has no valid quote.'')
          \<longleftrightarrow> validTexts (config w) (querySelectorAll (textMarkup p)) = []"
    using p0 by simp
  moreover have "(\<exists>b. getQuotesForSection w pid si = Fulfilled b)
          \<longleftrightarrow> validTexts (config w) (querySelectorAll (textMarkup p)) \<noteq> []"
    using p0 by simp
  ultimately show "getQuotesForSection_part001 w pid si =
       Fulfilled \<lparr>batchTitles = textTitle p,
         quotes = map (\<lambda>li. outerText (replaceUnwanted childrenToKeep li))
                    (querySelectorAll (textMarkup p))\<rparr>
     \<and> (querySelectorAll (textMarkup p) = [] \<longrightarrow>
          getQuotesForSection_part001 w pid si
            = Fulfilled \<lparr>batchTitles = textTitle p, quotes = []\<rparr>
          \<and> checkQuote cfg (chooseQuote r \<lparr>batchTitles = textTitle p, quotes = []\<rparr>)
            = Rejected (Message ''No quote found''))
     \<and> (getQuotesForSection w pid si = Rejected (Message ''Section has no valid quote.'')
          \<longleftrightarrow> validTexts (config w) (querySelectorAll (textMarkup p)) = [])
     \<and> ((\<exists>b. getQuotesForSection w pid si = Fulfilled b)
          \<longleftrightarrow> validTexts (config w) (querySelectorAll (textMarkup p)) \<noteq> [])"
    using p1 by (simp only: simp_thms)
qed

theorem empty_batch_outcome_witness:
  "ajaxGet (textXhr (pageWorld defaultConfig hamletOutline helloDoc 0) 42 (Some ''2''))
     = Fulfilled (Some \<lparr>textTitle = ''Hamlet'', textMarkup = helloDoc\<rparr>)
   \<and> querySelectorAll helloDoc = []
   \<and> getQuotesForSection_part001 (pageWorld defaultConfig hamletOutline helloDoc 0) 42
        (Some ''2'')
       = Fulfilled \<lparr>batchTitles = ''Hamlet'', quotes = []\<rparr>
   \<and> checkQuote defaultConfig (chooseQuote 0 \<lparr>batchTitles = ''Hamlet'', quotes = []\<rparr>)
       = Rejected (Message ''No quote found'')
   \<and> getQuotesForSection (pageWorld defaultConfig hamletOutline helloDoc 0) 42 (Some ''2'')
       = Rejected (Message ''Section has no valid quote.'')"
proof -
  let ?w = "pageWorld defaultConfig hamletOutline helloDoc 0"
  let ?p = "\<lparr>textTitle = ''Hamlet'', textMarkup = helloDoc\<rparr>"
  have x: "ajaxGet (textXhr ?w 42 (Some ''2'')) = Fulfilled (Some ?p)"
    by (rule textXhr_pageWorld)
  note t = empty_batch_outcome [where w = ?w and pid = 42 and si = "Some ''2''" and p = ?p
      and cfg = defaultConfig and r = 0, THEN mp, OF x]
  have v: "validTexts (config ?w) (querySelectorAll (textMarkup ?p)) = []"
    by (simp add: validTexts_def querySelectorAll_helloDoc)
  show ?thesis
    using t x v by (simp add: querySelectorAll_helloDoc)
qed


lemma plainQuote_hamletItems:
  "map plainQuote (querySelectorAll (listDoc hamletItems)) = hamletItems"
  by (simp add: querySelectorAll_listDoc hamletItems_def plainQuote_text trim_collapse_toBe
      trim_collapse_1997)

lemma getRandomQuote_part001_hamlet_zero:
  "getRandomQuote_part001 (\<lambda>k. hamletWorld 0)
     = (Rejected (Message ''Retry limit reached''),
        \<lparr>numRetry = 7, console = replicate 7 (Message ''Quote is too short'')\<rparr>)"
proof -
  have m: "map (\<lambda>k. Message ''Quote is too short'') [0..<RETRY_LIMIT]
             = replicate 7 (Message ''Quote is too short'')"
    by (simp add: RETRY_LIMIT_def map_replicate_const)
  have "getRandomQuote_part001 (\<lambda>k. hamletWorld 0)
     = (Rejected (Message ''Retry limit reached''),
        \<lparr>numRetry = RETRY_LIMIT,
         console = map (\<lambda>k. Message ''Quote is too short'') [0..<RETRY_LIMIT]\<rparr>)"
    unfolding getRandomQuote_part001_def
    by (rule mainSequence_init_exhaust) (simp_all add: chain_part001_hamlet_zero RETRY_LIMIT_pos)
  then show ?thesis
    unfolding m by (simp add: RETRY_LIMIT_def)
qed

text \<open>
  Claim C7, as stated, fails for random-wikiquote.js. The items of the section have the texts
  \<open>1997\<close> and \<open>To be or not to be, that is the question.\<close>, and \<open>Math.random()\<close> returns 0,
  which picks the first of a list. The first text is not valid, yet \<open>getRandomQuote\<close> is
  fulfilled with the second text in its first attempt, with no retry: both texts were
  validated during extraction and the choice was made among the valid ones. The earlier
  version, in the same worlds, picks \<open>1997\<close>, rejects it and restarts, seven times.
\<close>

theorem single_pick_counterexample:
  "map plainQuote (querySelectorAll (listDoc hamletItems)) = hamletItems
   \<and> hamletItems = [utf16 ''1997'', toBe]
   \<and> randomNum 0 (length hamletItems) = 0
   \<and> \<not> isQuoteValid defaultConfig (JStr (utf16 ''1997''))
   \<and> validTexts defaultConfig (querySelectorAll (listDoc hamletItems)) = [toBe]
   \<and> getRandomQuote (\<lambda>k. hamletWorld 0)
       = (Fulfilled \<lparr>title = ''Hamlet'', quote = JStr toBe\<rparr>, \<lparr>numRetry = 0, console = []\<rparr>)
   \<and> getRandomQuote_part001 (\<lambda>k. hamletWorld 0)
       = (Rejected (Message ''Retry limit reached''),
          \<lparr>numRetry = 7, console = replicate 7 (Message ''Quote is too short'')\<rparr>)"
  by (intro conjI plainQuote_hamletItems hamletItems_def randomNum_0(1) invalid_1997
      validTexts_hamlet getRandomQuote_hamlet getRandomQuote_part001_hamlet_zero)

lemma chain_part001_pick:
  assumes "getRandomPage_part001 w = Fulfilled pid"
    and "getSectionsForPage w pid = Fulfilled data"
    and "getQuotesForSection_part001 w (pageId data)
           (randomSection (randomForSection w) (sections data)) = Fulfilled b"
  shows "chain_part001 w =
           checkQuote (config w)
             \<lparr>title = batchTitles b,
              quote = (case js_nth (quotes b)
                              (randomNum (randomForQuote w) (length (quotes b))) of
                         None \<Rightarrow> JUndefined | Some s \<Rightarrow> JStr s)\<rparr>"
  using assms by (simp add: chain_part001_def chooseQuote_def randomQuote_def)

lemma chain_pick:
  assumes "getRandomPage w = Fulfilled pid"
    and "getSectionsForPage w pid = Fulfilled data"
    and "ajaxGet (textXhr w (pageId data) (randomSection (randomForSection w) (sections data)))
           = Fulfilled (Some p)"
    and "validTexts (config w) (querySelectorAll (textMarkup p)) \<noteq> []"
  shows "chain w =
           Fulfilled
             \<lparr>title = textTitle p,
              quote = (case js_nth (validTexts (config w) (querySelectorAll (textMarkup p)))
                              (randomNum (randomForQuote w)
                                 (length (validTexts (config w)
                                            (querySelectorAll (textMarkup p))))) of
                         None \<Rightarrow> JUndefined | Some s \<Rightarrow> JStr s)\<rparr>"
  using assms(1,2,4)
  by (simp add: chain_def getQuotesForSection_Some [OF assms(3)] chooseQuote_def randomQuote_def)

lemma chain_Fulfilled_pick:
  assumes "chain w = Fulfilled res"
  shows "\<exists>pid data p.
           getRandomPage w = Fulfilled pid \<and> getSectionsForPage w pid = Fulfilled data
           \<and> ajaxGet (textXhr w (pageId data)
                        (randomSection (randomForSection w) (sections data)))
               = Fulfilled (Some p)
           \<and> validTexts (config w) (querySelectorAll (textMarkup p)) \<noteq> []
           \<and> res =
               \<lparr>title = textTitle p,
                quote = (case js_nth (validTexts (config w) (querySelectorAll (textMarkup p)))
                                (randomNum (randomForQuote w)
                                   (length (validTexts (config w)
                                              (querySelectorAll (textMarkup p))))) of
                           None \<Rightarrow> JUndefined | Some s \<Rightarrow> JStr s)\<rparr>"
proof -
  obtain pid and data :: outline and b where
    s: "getRandomPage w = Fulfilled pid" "getSectionsForPage w pid = Fulfilled data"
    and b: "getQuotesForSection w (pageId data)
              (randomSection (randomForSection w) (sections data)) = Fulfilled b"
    and res: "res = chooseQuote (randomForQuote w) b"
    using assms unfolding chain_Fulfilled by blast
  from getQuotesForSection_Fulfilled [OF b] obtain p :: text_parse where
    p: "ajaxGet (textXhr w (pageId data) (randomSection (randomForSection w) (sections data)))
          = Fulfilled (Some p)"
      "quotes b = validTexts (config w) (querySelectorAll (textMarkup p))"
      "batchTitles b = textTitle p" "quotes b \<noteq> []"
    by blast
  have "res =
      \<lparr>title = textTitle p,
       quote = (case js_nth (validTexts (config w) (querySelectorAll (textMarkup p)))
                       (randomNum (randomForQuote w)
                          (length (validTexts (config w) (querySelectorAll (textMarkup p))))) of
                  None \<Rightarrow> JUndefined | Some s \<Rightarrow> JStr s)\<rparr>"
    using p(2,3) by (simp add: res chooseQuote_def randomQuote_def)
  with s p(1) p(4) [unfolded p(2)] show ?thesis by blast
qed

text \<open>
  The product \<open>Math.random() * max\<close> is rounded to a double before \<open>Math.floor\<close> reads it:
  for this value of \<open>Math.random()\<close> and a list of seven, the index is 4, although seven
  times the value is below 4.
\<close>

lemma randomNum_rounds_up:
  "randomNum (2573485501354569 / 2 ^ 52) 7 = 4"
  "\<lfloor>(2573485501354569 / 2 ^ 52 :: rat) * 7\<rfloor> = 3"
  by code_simp+

text \<open>
  Claim C7, amended. In the earlier version, once the batch is extracted the outcome of the
  attempt is the verdict of \<open>checkQuote\<close> on the one quote read at index
  \<open>Math.floor(Math.random() * n)\<close> of the batch of \<open>n\<close> quotes, whatever the other quotes
  are; when an attempt is rejected and the limit is not reached, the loop goes on with the
  next attempt, which starts at \<open>getRandomPage\<close>. For \<open>Math.random()\<close> in \<open>[0, 1)\<close> and a
  batch that is not empty the index is one of the batch. In random-wikiquote.js the attempt
  is fulfilled exactly when the three stages are and some item has a valid text, and its
  result is then the quote read at that index of the list of the valid texts of the items,
  with no further test; it is valid for \<open>Math.random()\<close> in \<open>[0, 1)\<close>.
\<close>

theorem one_pick_per_attempt:
  "(getRandomPage_part001 w = Fulfilled pid \<and> getSectionsForPage w pid = Fulfilled data
      \<and> getQuotesForSection_part001 w (pageId data)
           (randomSection (randomForSection w) (sections data)) = Fulfilled b \<longrightarrow>
      chain_part001 w =
        checkQuote (config w)
          \<lparr>title = batchTitles b,
           quote = (case js_nth (quotes b)
                           (randomNum (randomForQuote w) (length (quotes b))) of
                      None \<Rightarrow> JUndefined | Some s \<Rightarrow> JStr s)\<rparr>)
   \<and> (chain_part001 (env k) = Rejected r \<and> k + 1 < RETRY_LIMIT \<longrightarrow>
      mainSequence RETRY_LIMIT chain_part001 env \<lparr>numRetry = k, console = c\<rparr>
        = mainSequence RETRY_LIMIT chain_part001 env \<lparr>numRetry = k + 1, console = c @ [r]\<rparr>)
   \<and> (0 \<le> x \<and> x < 1 \<and> 0 < n \<longrightarrow> 0 \<le> randomNum x n \<and> randomNum x n < int n)
   \<and> validTexts cfg items = filter (\<lambda>q. isQuoteValid cfg (JStr q)) (map plainQuote items)
   \<and> (getRandomPage w = Fulfilled pid \<and> getSectionsForPage w pid = Fulfilled data
      \<and> ajaxGet (textXhr w (pageId data) (randomSection (randomForSection w) (sections data)))
          = Fulfilled (Some p)
      \<and> validTexts (config w) (querySelectorAll (textMarkup p)) \<noteq> [] \<longrightarrow>
      chain w =
        Fulfilled
          \<lparr>title = textTitle p,
           quote = (case js_nth (validTexts (config w) (querySelectorAll (textMarkup p)))
                           (randomNum (randomForQuote w)
                              (length (validTexts (config w)
                                         (querySelectorAll (textMarkup p))))) of
                      None \<Rightarrow> JUndefined | Some s \<Rightarrow> JStr s)\<rparr>)
   \<and> (chain w = Fulfilled res \<longrightarrow>
      (\<exists>pid data p.
           getRandomPage w = Fulfilled pid \<and> getSectionsForPage w pid = Fulfilled data
           \<and> ajaxGet (textXhr w (pageId data)
                        (randomSection (randomForSection w) (sections data)))
               = Fulfilled (Some p)
           \<and> validTexts (config w) (querySelectorAll (textMarkup p)) \<noteq> []
           \<and> res =
               \<lparr>title = textTitle p,
                quote = (case js_nth (validTexts (config w) (querySelectorAll (textMarkup p)))
                                (randomNum (randomForQuote w)
                                   (length (validTexts (config w)
                                              (querySelectorAll (textMarkup p))))) of
                           None \<Rightarrow> JUndefined | Some s \<Rightarrow> JStr s)\<rparr>))
   \<and> (chain w = Fulfilled res \<and> 0 \<le> randomForQuote w \<and> randomForQuote w < 1 \<longrightarrow>
      isQuoteValid (config w) (quote res))"
proof (intro conjI impI)
  assume a: "getRandomPage_part001 w = Fulfilled pid \<and> getSectionsForPage w pid = Fulfilled data
      \<and> getQuotesForSection_part001 w (pageId data)
           (randomSection (randomForSection w) (sections data)) = Fulfilled b"
  show "chain_part001 w =
        checkQuote (config w)
          \<lparr>title = batchTitles b,
           quote = (case js_nth (quotes b)
                           (randomNum (randomForQuote w) (length (quotes b))) of
                      None \<Rightarrow> JUndefined | Some s \<Rightarrow> JStr s)\<rparr>"
    using a by (intro chain_part001_pick [of w pid data b]) simp_all
next
  assume "chain_part001 (env k) = Rejected r \<and> k + 1 < RETRY_LIMIT"
  then show "mainSequence RETRY_LIMIT chain_part001 env \<lparr>numRetry = k, console = c\<rparr>
        = mainSequence RETRY_LIMIT chain_part001 env \<lparr>numRetry = k + 1, console = c @ [r]\<rparr>"
    by (subst mainSequence_unfold) simp
next
  assume a: "0 \<le> x \<and> x < 1 \<and> 0 < n"
  then have "0 \<le> randomNum x n \<and> randomNum x n < int n"
    by (intro randomNum_range) simp_all
  then show "0 \<le> randomNum x n" "randomNum x n < int n" by simp_all
next
  show "validTexts cfg items = filter (\<lambda>q. isQuoteValid cfg (JStr q)) (map plainQuote items)"
    by (rule validTexts_def)
next
  assume a: "getRandomPage w = Fulfilled pid \<and> getSectionsForPage w pid = Fulfilled data
      \<and> ajaxGet (textXhr w (pageId data) (randomSection (randomForSection w) (sections data)))
          = Fulfilled (Some p)
      \<and> validTexts (config w) (querySelectorAll (textMarkup p)) \<noteq> []"
  show "chain w =
        Fulfilled
          \<lparr>title = textTitle p,
           quote = (case js_nth (validTexts (config w) (querySelectorAll (textMarkup p)))
                           (randomNum (randomForQuote w)
                              (length (validTexts (config w)
                                         (querySelectorAll (textMarkup p))))) of
                      None \<Rightarrow> JUndefined | Some s \<Rightarrow> JStr s)\<rparr>"
    using a by (intro chain_pick [of w pid data p]) blast+
next
  assume "chain w = Fulfilled res"
  then show "\<exists>pid data p.
           getRandomPage w = Fulfilled pid \<and> getSectionsForPage w pid = Fulfilled data
           \<and> ajaxGet (textXhr w (pageId data)
                        (randomSection (randomForSection w) (sections data)))
               = Fulfilled (Some p)
           \<and> validTexts (config w) (querySelectorAll (textMarkup p)) \<noteq> []
           \<and> res =
               \<lparr>title = textTitle p,
                quote = (case js_nth (validTexts (config w) (querySelectorAll (textMarkup p)))
                                (randomNum (randomForQuote w)
                                   (length (validTexts (config w)
                                              (querySelectorAll (textMarkup p))))) of
                           None \<Rightarrow> JUndefined | Some s \<Rightarrow> JStr s)\<rparr>"
    by (rule chain_Fulfilled_pick)
next
  assume "chain w = Fulfilled res \<and> 0 \<le> randomForQuote w \<and> randomForQuote w < 1"
  then show "isQuoteValid (config w) (quote res)"
    by (intro chain_valid) simp_all
qed

theorem one_pick_per_attempt_witness:
  "getRandomPage_part001 (hamletWorld (1 / 2)) = Fulfilled 42
   \<and> getSectionsForPage (hamletWorld (1 / 2)) 42
       = Fulfilled \<lparr>pageId = 42, titles = ''Hamlet'', sections = [''2'']\<rparr>
   \<and> getQuotesForSection_part001 (hamletWorld (1 / 2)) 42 (Some ''2'')
       = Fulfilled \<lparr>batchTitles = ''Hamlet'', quotes = hamletItems\<rparr>
   \<and> chain_part001 (hamletWorld (1 / 2))
       = checkQuote defaultConfig \<lparr>title = ''Hamlet'', quote = JStr toBe\<rparr>
   \<and> chain_part001 (hamletWorld 0) = Rejected (Message ''Quote is too short'')
   \<and> mainSequence RETRY_LIMIT chain_part001 (\<lambda>k. hamletWorld 0) \<lparr>numRetry = 0, console = []\<rparr>
       = mainSequence RETRY_LIMIT chain_part001 (\<lambda>k. hamletWorld 0)
           \<lparr>numRetry = 1, console = [Message ''Quote is too short'']\<rparr>
   \<and> randomNum (1 / 2) 2 = 1 \<and> randomNum (1 / 2) 2 < int 2
   \<and> getRandomPage (hamletWorld 0) = Fulfilled 42
   \<and> getSectionsForPage (hamletWorld 0) 42
       = Fulfilled \<lparr>pageId = 42, titles = ''Hamlet'', sections = [''2'']\<rparr>
   \<and> ajaxGet (textXhr (hamletWorld 0) 42 (Some ''2''))
       = Fulfilled (Some \<lparr>textTitle = ''Hamlet'', textMarkup = listDoc hamletItems\<rparr>)
   \<and> validTexts defaultConfig (querySelectorAll (listDoc hamletItems)) = [toBe]
   \<and> chain (hamletWorld 0) = Fulfilled \<lparr>title = ''Hamlet'', quote = JStr toBe\<rparr>
   \<and> isQuoteValid (config (hamletWorld 0)) (JStr toBe)"
proof -
  let ?w = "hamletWorld (1 / 2)"
  let ?v = "hamletWorld 0"
  let ?data = "\<lparr>pageId = 42, titles = ''Hamlet'', sections = [''2'']\<rparr>"
  let ?b = "\<lparr>batchTitles = ''Hamlet'', quotes = hamletItems\<rparr>"
  let ?p = "\<lparr>textTitle = ''Hamlet'', textMarkup = listDoc hamletItems\<rparr>"
  let ?res = "\<lparr>title = ''Hamlet'', quote = JStr toBe\<rparr>"
  note c2 = conjunct2
  note pick = one_pick_per_attempt [where w = ?w and pid = 42 and data = ?data and b = ?b,
      THEN conjunct1, THEN mp]
  note again = one_pick_per_attempt [where env = "\<lambda>k. hamletWorld 0" and k = 0
      and r = "Message ''Quote is too short''" and c = "[]",
      THEN c2, THEN conjunct1, THEN mp]
  note range = one_pick_per_attempt [where n = 2 and x = "1 / 2",
      THEN c2, THEN c2, THEN conjunct1, THEN mp]
  note chosen = one_pick_per_attempt [where w = ?v and pid = 42 and data = ?data and p = ?p,
      THEN c2, THEN c2, THEN c2, THEN c2, THEN conjunct1, THEN mp]
  note valid = one_pick_per_attempt [where w = ?v and res = ?res,
      THEN c2, THEN c2, THEN c2, THEN c2, THEN c2, THEN c2, THEN mp]
  have q: "getQuotesForSection_part001 ?w (pageId ?data)
             (randomSection (randomForSection ?w) (sections ?data)) = Fulfilled ?b"
    by (simp add: hamletWorld_stages randomSection_single getQuotesForSection_part001_hamlet)
  have a: "chain_part001 ?w = checkQuote defaultConfig ?res"
    using pick q
    by (simp add: hamletWorld_stages hamletItems_def js_nth_def randomNum_half)
  have b: "mainSequence RETRY_LIMIT chain_part001 (\<lambda>k. hamletWorld 0)
             \<lparr>numRetry = 0, console = []\<rparr>
       = mainSequence RETRY_LIMIT chain_part001 (\<lambda>k. hamletWorld 0)
           \<lparr>numRetry = 1, console = [Message ''Quote is too short'']\<rparr>"
    using again RETRY_LIMIT_pos(2) by (simp add: chain_part001_hamlet_zero)
  have c: "0 \<le> randomNum (1 / 2) 2 \<and> randomNum (1 / 2) 2 < int 2"
    using range by simp
  have c': "randomNum (1 / 2) 2 = 1"
    by (simp add: numeral_2_eq_2 randomNum_half)
  have x: "ajaxGet (textXhr ?v 42 (Some ''2'')) = Fulfilled (Some ?p)"
    unfolding hamletWorld_def by (rule textXhr_pageWorld)
  have ch: "chain ?v = Fulfilled ?res"
    using chosen x
    by (simp add: hamletWorld_stages randomSection_single validTexts_hamlet randomNum_0
        js_nth_def)
  have d: "isQuoteValid (config ?v) (JStr toBe)"
    using valid ch by (simp add: hamletWorld_stages)
  show ?thesis
    using a b c c' d q x ch chain_part001_hamlet_zero validTexts_hamlet
    by (simp add: hamletWorld_stages randomSection_single)
qed

end
